theory Spec2Isabelle
  imports Main "HOL-Library.Multiset" "HOL-Library.Char_ord" "HOL-Library.List_Lexorder"
begin

section \<open>Instants and civil dates (Go's \<open>time\<close> package)\<close>

text \<open>
  A \<open>time.Time\<close> is modelled by its instant: whole seconds since 0001-01-01T00:00:00 UTC
  (the zero \<open>time.Time\<close> is \<open>0\<close>), read in UTC. \<open>Date\<close>, \<open>Year\<close>, \<open>Month\<close> and
  \<open>Day\<close> follow the standard library: \<open>Date\<close> normalises the month into the year and
  counts days from the epoch, \<open>absDate\<close> cuts the day count into 400-, 100-, 4- and
  1-year cycles and then finds the month from the day of the year.
\<close>

type_synonym time = int

definition isLeap :: "int \<Rightarrow> bool" where
  "isLeap year = (year mod 4 = 0 \<and> (year mod 100 \<noteq> 0 \<or> year mod 400 = 0))"

definition daysBefore :: "int list" where
  "daysBefore = [0, 31, 59, 90, 120, 151, 181, 212, 243, 273, 304, 334, 365]"

definition daysSinceEpoch :: "int \<Rightarrow> int" where
  "daysSinceEpoch year =
     (let y = year - 1 in 365 * y + y div 4 - y div 100 + y div 400)"

definition Date :: "int \<Rightarrow> int \<Rightarrow> int \<Rightarrow> int \<Rightarrow> int \<Rightarrow> int \<Rightarrow> time" where
  "Date year month day hour minute sec =
     (let m = month - 1;
          year' = year + m div 12;
          month' = m mod 12 + 1;
          d = daysSinceEpoch year' + daysBefore ! nat (month' - 1)
              + (if isLeap year' \<and> month' \<ge> 3 then 1 else 0)
              + (day - 1)
      in d * 86400 + hour * 3600 + minute * 60 + sec)"

definition absYear :: "int \<Rightarrow> int \<times> int" where
  "absYear days =
     (let d = days;
          n = d div 146097;
          y = 400 * n;
          d = d - 146097 * n;
          n = d div 36524;
          n = n - n div 4;
          y = y + 100 * n;
          d = d - 36524 * n;
          n = d div 1461;
          y = y + 4 * n;
          d = d - 1461 * n;
          n = d div 365;
          n = n - n div 4;
          y = y + n;
          d = d - 365 * n
      in (y + 1, d))"

definition absMonthDay :: "int \<Rightarrow> int \<Rightarrow> int \<times> int" where
  "absMonthDay year yday =
     (if isLeap year \<and> yday = 31 + 29 - 1 then (2, 29)
      else
        let day = (if isLeap year \<and> yday > 31 + 29 - 1 then yday - 1 else yday);
            month = day div 31;
            end = daysBefore ! nat (month + 1);
            (month, begin) = (if day \<ge> end then (month + 1, end)
                              else (month, daysBefore ! nat month))
        in (month + 1, day - begin + 1))"

definition absDate :: "time \<Rightarrow> int \<times> int \<times> int" where
  "absDate t =
     (let (year, yday) = absYear (t div 86400);
          (month, day) = absMonthDay year yday
      in (year, month, day))"

definition Year :: "time \<Rightarrow> int" where "Year t = fst (absDate t)"
definition Month :: "time \<Rightarrow> int" where "Month t = fst (snd (absDate t))"
definition Day :: "time \<Rightarrow> int" where "Day t = snd (snd (absDate t))"

text \<open>\<open>t.Clock()\<close>: the seconds elapsed in the day of \<open>t\<close>, as hour, minute and second.\<close>

definition Clock :: "time \<Rightarrow> int \<times> int \<times> int" where
  "Clock t = (let s = t mod 86400 in (s div 3600, (s mod 3600) div 60, s mod 60))"

text \<open>\<open>t.AddDate(years, months, days)\<close> adds to the civil fields and lets \<open>Date\<close> normalise.\<close>

definition AddDate :: "time \<Rightarrow> int \<Rightarrow> int \<Rightarrow> int \<Rightarrow> time" where
  "AddDate t years months days =
     (let (year, month, day) = absDate t;
          (hour, minute, sec) = Clock t
      in Date (year + years) (month + months) (day + days) hour minute sec)"


section \<open>Entity model (\<open>pkg/calendar\<close>)\<close>

type_synonym EventStatus = string

definition StatusConfirmed :: EventStatus where "StatusConfirmed = ''confirmed''"
definition StatusTentative :: EventStatus where "StatusTentative = ''tentative''"
definition StatusCancelled :: EventStatus where "StatusCancelled = ''cancelled''"

type_synonym AccountType = string

definition AccountTypeGoogle :: AccountType where "AccountTypeGoogle = ''google''"
definition AccountTypeLocal :: AccountType where "AccountTypeLocal = ''local''"

text \<open>
  The fields carry the Go names behind a prefix per struct. \<open>Recurrence\<close> and
  \<open>Reminders\<close> are held as the JSON text that \<open>json.Marshal\<close> gives for them
  (\<open>null\<close> for the nil pointer and the nil slice): the store only ever moves them
  through that text.
\<close>

record Event =
  e_ID :: string
  e_CalendarID :: string
  e_UID :: string
  e_Title :: string
  e_Description :: string
  e_Location :: string
  e_Start :: time
  e_End :: time
  e_AllDay :: bool
  e_Color :: string
  e_Recurrence :: string
  e_Reminders :: string
  e_Created :: time
  e_Modified :: time
  e_ETag :: string
  e_Status :: EventStatus
  e_Cancelled :: bool

record Calendar =
  c_ID :: string
  c_AccountID :: string
  c_Name :: string
  c_Description :: string
  c_Color :: string
  c_Visible :: bool
  c_ReadOnly :: bool
  c_SyncToken :: string
  c_LastSync :: time

record Account =
  a_ID :: string
  a_Name :: string
  a_Type :: AccountType
  a_Email :: string
  a_Enabled :: bool
  a_ServerURL :: string
  a_Username :: string
  a_AccessToken :: string
  a_RefreshToken :: string
  a_TokenExpiry :: time
  a_AppPassword :: string
  a_LastSync :: time

text \<open>The zero values \<open>&calendar.Event{}\<close>, \<open>&calendar.Calendar{}\<close>, \<open>&calendar.Account{}\<close>.\<close>

definition zeroEvent :: Event where
  "zeroEvent = \<lparr> e_ID = [], e_CalendarID = [], e_UID = [], e_Title = [],
     e_Description = [], e_Location = [], e_Start = 0, e_End = 0, e_AllDay = False,
     e_Color = [], e_Recurrence = ''null'', e_Reminders = ''null'', e_Created = 0,
     e_Modified = 0, e_ETag = [], e_Status = [], e_Cancelled = False \<rparr>"

definition zeroCalendar :: Calendar where
  "zeroCalendar = \<lparr> c_ID = [], c_AccountID = [], c_Name = [], c_Description = [],
     c_Color = [], c_Visible = False, c_ReadOnly = False, c_SyncToken = [], c_LastSync = 0 \<rparr>"

definition zeroAccount :: Account where
  "zeroAccount = \<lparr> a_ID = [], a_Name = [], a_Type = [], a_Email = [], a_Enabled = False,
     a_ServerURL = [], a_Username = [], a_AccessToken = [], a_RefreshToken = [],
     a_TokenExpiry = 0, a_AppPassword = [], a_LastSync = 0 \<rparr>"


section \<open>The store (\<open>pkg/calendar/store.go\<close>)\<close>

text \<open>
  The database is three tables in insertion order. A row of \<open>accounts\<close> or \<open>calendars\<close>
  is the struct whose fields \<open>SaveAccount\<close> or \<open>SaveCalendar\<close> bound to the columns.
  A row of \<open>events\<close> keeps the nullable columns of the schema as options, since
  \<open>scanEvent\<close> reads them through \<open>sql.NullString\<close> and \<open>sql.NullTime\<close>.
  SQL compares \<open>DATETIME\<close> values as instants. The schema of \<open>migrate\<close> gives the
  primary keys and the two \<open>ON DELETE CASCADE\<close> foreign keys, which \<open>NewStore\<close>
  switches on. Failures of the database file itself are outside the model.
\<close>

record event_row =
  r_id :: string
  r_calendar_id :: string
  r_uid :: "string option"
  r_title :: string
  r_description :: "string option"
  r_location :: "string option"
  r_start_time :: time
  r_end_time :: time
  r_all_day :: bool
  r_color :: "string option"
  r_recurrence :: "string option"
  r_reminders :: "string option"
  r_created :: "time option"
  r_modified :: "time option"
  r_etag :: "string option"
  r_status :: "string option"
  r_cancelled :: bool

record Store =
  accounts :: "Account list"
  calendars :: "Calendar list"
  events :: "event_row list"

datatype error = ForeignKeyConstraint | NoRows

text \<open>\<open>INSERT ... ON CONFLICT(id) DO UPDATE SET\<close> every other column.\<close>

definition upsert :: "('a \<Rightarrow> string) \<Rightarrow> 'a \<Rightarrow> 'a list \<Rightarrow> 'a list" where
  "upsert key x xs =
     (if key x \<in> set (map key xs)
      then map (\<lambda>y. if key y = key x then x else y) xs
      else xs @ [x])"

definition SaveAccount :: "Store \<Rightarrow> Account \<Rightarrow> error + Store" where
  "SaveAccount s a = Inr (s\<lparr>accounts := upsert a_ID a (accounts s)\<rparr>)"

definition DeleteAccount :: "Store \<Rightarrow> string \<Rightarrow> error + Store" where
  "DeleteAccount s ident =
     (let gone = [a \<leftarrow> accounts s. a_ID a = ident];
          goneCals = [c \<leftarrow> calendars s. c_AccountID c \<in> set (map a_ID gone)]
      in Inr (s\<lparr>accounts := [a \<leftarrow> accounts s. a_ID a \<noteq> ident],
               calendars := [c \<leftarrow> calendars s. c_AccountID c \<notin> set (map a_ID gone)],
               events := [r \<leftarrow> events s. r_calendar_id r \<notin> set (map c_ID goneCals)]\<rparr>))"

definition SaveCalendar :: "Store \<Rightarrow> Calendar \<Rightarrow> error + Store" where
  "SaveCalendar s c =
     (if c_AccountID c \<in> set (map a_ID (accounts s))
      then Inr (s\<lparr>calendars := upsert c_ID c (calendars s)\<rparr>)
      else Inl ForeignKeyConstraint)"

definition GetAllCalendars :: "Store \<Rightarrow> Calendar list" where
  "GetAllCalendars s = sort_key c_Name (calendars s)"

definition DeleteCalendar :: "Store \<Rightarrow> string \<Rightarrow> error + Store" where
  "DeleteCalendar s ident =
     (let gone = [c \<leftarrow> calendars s. c_ID c = ident]
      in Inr (s\<lparr>calendars := [c \<leftarrow> calendars s. c_ID c \<noteq> ident],
               events := [r \<leftarrow> events s. r_calendar_id r \<notin> set (map c_ID gone)]\<rparr>))"

definition eventRow :: "Event \<Rightarrow> event_row" where
  "eventRow e = \<lparr> r_id = e_ID e, r_calendar_id = e_CalendarID e, r_uid = Some (e_UID e),
     r_title = e_Title e, r_description = Some (e_Description e),
     r_location = Some (e_Location e), r_start_time = e_Start e, r_end_time = e_End e,
     r_all_day = e_AllDay e, r_color = Some (e_Color e),
     r_recurrence = Some (e_Recurrence e), r_reminders = Some (e_Reminders e),
     r_created = Some (e_Created e), r_modified = Some (e_Modified e),
     r_etag = Some (e_ETag e), r_status = Some (e_Status e),
     r_cancelled = e_Cancelled e \<rparr>"

definition SaveEvent :: "Store \<Rightarrow> Event \<Rightarrow> error + Store" where
  "SaveEvent s e =
     (if e_CalendarID e \<in> set (map c_ID (calendars s))
      then Inr (s\<lparr>events := upsert r_id (eventRow e) (events s)\<rparr>)
      else Inl ForeignKeyConstraint)"

text \<open>\<open>sql.NullString.String\<close> and the guarded read of a \<open>sql.NullTime\<close>.\<close>

definition NullString :: "string option \<Rightarrow> string" where
  "NullString v = (case v of None \<Rightarrow> [] | Some x \<Rightarrow> x)"

definition NullTime :: "time option \<Rightarrow> time" where
  "NullTime v = (case v of None \<Rightarrow> 0 | Some t \<Rightarrow> t)"

definition scanEvent :: "event_row \<Rightarrow> Event" where
  "scanEvent r =
     (let status = NullString (r_status r);
          recurrence = NullString (r_recurrence r);
          reminders = NullString (r_reminders r)
      in \<lparr> e_ID = r_id r, e_CalendarID = r_calendar_id r, e_UID = NullString (r_uid r),
           e_Title = r_title r, e_Description = NullString (r_description r),
           e_Location = NullString (r_location r), e_Start = r_start_time r,
           e_End = r_end_time r, e_AllDay = r_all_day r, e_Color = NullString (r_color r),
           e_Recurrence = (if recurrence \<noteq> [] \<and> recurrence \<noteq> ''null''
                           then recurrence else ''null''),
           e_Reminders = (if reminders \<noteq> [] \<and> reminders \<noteq> ''null''
                          then reminders else ''null''),
           e_Created = NullTime (r_created r), e_Modified = NullTime (r_modified r),
           e_ETag = NullString (r_etag r),
           e_Status = (if status = [] then StatusConfirmed else status),
           e_Cancelled = r_cancelled r \<rparr>)"

definition scanEvents :: "event_row list \<Rightarrow> Event list" where
  "scanEvents rows = map scanEvent rows"

definition GetEvent :: "Store \<Rightarrow> string \<Rightarrow> error + Event" where
  "GetEvent s ident =
     (case [r \<leftarrow> events s. r_id r = ident] of
        [] \<Rightarrow> Inl NoRows
      | r # _ \<Rightarrow> Inr (scanEvent r))"

definition GetEventsByCalendar :: "Store \<Rightarrow> string \<Rightarrow> Event list" where
  "GetEventsByCalendar s calendarID =
     scanEvents (sort_key r_start_time
       [r \<leftarrow> events s. r_calendar_id r = calendarID \<and> \<not> r_cancelled r])"

definition GetEventsInRange :: "Store \<Rightarrow> time \<Rightarrow> time \<Rightarrow> Event list" where
  "GetEventsInRange s start end =
     (let joined = concat (map (\<lambda>e. map (\<lambda>c. (e, c))
                       [c \<leftarrow> calendars s. r_calendar_id e = c_ID c]) (events s));
          selected = [(e, c) \<leftarrow> joined. c_Visible c \<and> \<not> r_cancelled e
                        \<and> r_start_time e < end \<and> r_end_time e > start];
          ordered = sort_key (\<lambda>(e, c). r_start_time e) selected
      in scanEvents (map fst ordered))"

definition GetEventsForDate :: "Store \<Rightarrow> time \<Rightarrow> Event list" where
  "GetEventsForDate s date =
     (let start = Date (Year date) (Month date) (Day date) 0 0 0;
          end = start + 24 * 3600
      in GetEventsInRange s start end)"

text \<open>
  What the schema keeps true of every database: identifiers are primary keys, and every
  child row names an existing parent.
\<close>

definition store_ok :: "Store \<Rightarrow> bool" where
  "store_ok s \<longleftrightarrow>
     distinct (map a_ID (accounts s)) \<and> distinct (map c_ID (calendars s)) \<and>
     distinct (map r_id (events s)) \<and>
     (\<forall>c \<in> set (calendars s). c_AccountID c \<in> set (map a_ID (accounts s))) \<and>
     (\<forall>r \<in> set (events s). r_calendar_id r \<in> set (map c_ID (calendars s)))"

definition emptyStore :: Store where
  "emptyStore = \<lparr> accounts = [], calendars = [], events = [] \<rparr>"


section \<open>First-run bootstrap (\<open>ensureDefaultCalendar\<close>)\<close>

text \<open>\<open>fmt.Sprintf("%d", n)\<close>: the decimal digits of \<open>n\<close>, with a sign when negative.\<close>

fun digitsOf :: "nat \<Rightarrow> string" where
  "digitsOf n = (if n < 10 then [''0123456789'' ! n]
                 else digitsOf (n div 10) @ [''0123456789'' ! (n mod 10)])"

declare digitsOf.simps [simp del]

definition formatInt :: "int \<Rightarrow> string" where
  "formatInt i = (if i < 0 then CHR ''-'' # digitsOf (nat (- i)) else digitsOf (nat i))"

text \<open>
  \<open>nano1\<close> and \<open>nano2\<close> are the two readings of \<open>time.Now().UnixNano()\<close> that name
  the account and the calendar. A failed save is logged and ends the function; what
  was saved before it stays saved.
\<close>

definition ensureDefaultCalendar :: "Store \<Rightarrow> int \<Rightarrow> int \<Rightarrow> Store" where
  "ensureDefaultCalendar s nano1 nano2 =
     (let cals = GetAllCalendars s
      in if length cals = 0
         then
           let account = zeroAccount\<lparr> a_ID := ''acc-'' @ formatInt nano1, a_Name := ''Local'',
                            a_Type := AccountTypeLocal, a_Enabled := True \<rparr>
           in case SaveAccount s account of
                Inl err \<Rightarrow> s
              | Inr s1 \<Rightarrow>
                  let cal = zeroCalendar\<lparr> c_ID := ''cal-'' @ formatInt nano2,
                               c_AccountID := a_ID account, c_Name := ''My Calendar'',
                               c_Color := ''#4285f4'', c_Visible := True \<rparr>
                  in (case SaveCalendar s1 cal of Inl err \<Rightarrow> s1 | Inr s2 \<Rightarrow> s2)
         else s)"


section \<open>Google Calendar REST: the provider client and the sync path\<close>

text \<open>
  An item of the events response after JSON decoding. \<open>time.Parse\<close> belongs to the
  standard library and is a parameter: \<open>ParseRFC3339 v\<close> is \<open>time.Parse(time.RFC3339, v)\<close>
  and \<open>ParseDateOnly v\<close> is \<open>time.Parse("2006-01-02", v)\<close>, \<open>None\<close> when it
  returns an error.
\<close>

record gtime =
  g_DateTime :: string
  g_Date :: string

record gitem =
  i_ID :: string
  i_Summary :: string
  i_Description :: string
  i_Location :: string
  i_Status :: string
  i_Start :: gtime
  i_End :: gtime

record gcal =
  gc_ID :: string
  gc_Summary :: string
  gc_Description :: string
  gc_BackgroundColor :: string

type_synonym parser = "string \<Rightarrow> time option"

subsection \<open>\<open>google.Client.GetEvents\<close>: the loop over the decoded items\<close>



subsection \<open>The application's own sync: requests, responses, clock\<close>

text \<open>
  The network is a parameter: \<open>env\<close> gives the outcome of each request, and the
  \<open>n\<close>-th call of \<open>time.Now()\<close> returns \<open>Now env n\<close>. The \<open>world\<close> carries the
  store, the requests sent so far and the number of clock readings.
  A request records the instants of its time window, which the code sends as RFC 3339 text.
\<close>

datatype request =
    RefreshPOST string
  | CalendarListGET string
  | EventsGET string string time time
  | CalDAVQuery string time time

datatype refresh_response =
    PostFailed
  | ReadFailed
  | RefreshUndecodable
  | RefreshJSON string int string string

datatype 'a response = DoFailed | BadStatus | Undecodable | Items "'a list"

record Prop =
  p_Name :: string
  p_Params :: "(string \<times> string list) list"
  p_Value :: string

datatype Component =
  Component (comp_Name: string) (comp_Props: "(string \<times> Prop list) list")
    (comp_Children: "Component list")

record CalendarObject =
  o_ETag :: string
  o_Data :: "Component option"

record dav_calendar =
  d_Path :: string
  d_Name :: string
  d_Description :: string

record env =
  Now :: "nat \<Rightarrow> time"
  ParseRFC3339 :: parser
  ParseDateOnly :: parser
  FormatDateTime :: "time \<Rightarrow> string"
  FormatDate :: "time \<Rightarrow> string"
  PropDateTime :: "Prop \<Rightarrow> time option"
  refreshResponse :: "string \<Rightarrow> refresh_response"
  calendarListResponse :: "string \<Rightarrow> gcal response"
  eventsResponse :: "string \<Rightarrow> gitem response"
  homeSetFound :: bool
  davCalendars :: "dav_calendar list option"
  davObjects :: "string \<Rightarrow> CalendarObject list option"

record world =
  store :: Store
  sent :: "request list"
  ticks :: nat

definition tick :: "env \<Rightarrow> world \<Rightarrow> time \<times> world" where
  "tick E w = (Now E (ticks w), w\<lparr> ticks := Suc (ticks w) \<rparr>)"

definition send :: "request \<Rightarrow> world \<Rightarrow> world" where
  "send r w = w\<lparr> sent := sent w @ [r] \<rparr>"

text \<open>
  \<open>time.Duration(n) * time.Second\<close> is a 64-bit count of nanoseconds and wraps;
  \<open>Seconds n\<close> is what \<open>Add\<close> then moves a whole-second instant by.
\<close>

definition wrap64 :: "int \<Rightarrow> int" where
  "wrap64 x = (x + 2 ^ 63) mod 2 ^ 64 - 2 ^ 63"

definition Seconds :: "int \<Rightarrow> int" where
  "Seconds n = wrap64 (n * 1000000000) div 1000000000"

datatype sync_error =
    NoRefreshToken
  | Transport
  | RefreshFailed string string
  | StoreError error

definition refreshGoogleToken ::
    "env \<Rightarrow> world \<Rightarrow> Account \<Rightarrow> sync_error option \<times> world \<times> Account" where
  "refreshGoogleToken E w account =
     (if a_RefreshToken account = [] then (Some NoRefreshToken, w, account)
      else
        let w = send (RefreshPOST (a_RefreshToken account)) w
        in case refreshResponse E (a_RefreshToken account) of
             PostFailed \<Rightarrow> (Some Transport, w, account)
           | ReadFailed \<Rightarrow> (Some Transport, w, account)
           | RefreshUndecodable \<Rightarrow> (Some Transport, w, account)
           | RefreshJSON accessToken expiresIn err errDesc \<Rightarrow>
               if err \<noteq> [] then (Some (RefreshFailed err errDesc), w, account)
               else
                 let (now, w) = tick E w;
                     account = account\<lparr> a_AccessToken := accessToken,
                                 a_TokenExpiry := now + Seconds expiresIn \<rparr>
                 in (case SaveAccount (store w) account of
                       Inl e \<Rightarrow> (Some (StoreError e), w, account)
                     | Inr s \<Rightarrow> (None, w\<lparr> store := s \<rparr>, account)))"

definition fetchedEvent :: "env \<Rightarrow> Calendar \<Rightarrow> gitem \<Rightarrow> Event" where
  "fetchedEvent E cal item =
     (let event = zeroEvent\<lparr> e_ID := i_ID item, e_CalendarID := c_ID cal, e_UID := i_ID item,
                    e_Title := i_Summary item, e_Description := i_Description item,
                    e_Location := i_Location item, e_Status := StatusConfirmed \<rparr>;
          event =
            (if g_DateTime (i_Start item) \<noteq> []
             then event\<lparr> e_Start := NullTime (ParseRFC3339 E (g_DateTime (i_Start item))) \<rparr>
             else if g_Date (i_Start item) \<noteq> []
             then event\<lparr> e_Start := NullTime (ParseDateOnly E (g_Date (i_Start item))),
                         e_AllDay := True \<rparr>
             else event)
      in if g_DateTime (i_End item) \<noteq> []
         then event\<lparr> e_End := NullTime (ParseRFC3339 E (g_DateTime (i_End item))) \<rparr>
         else if g_Date (i_End item) \<noteq> []
         then event\<lparr> e_End := NullTime (ParseDateOnly E (g_Date (i_End item))) \<rparr>
         else event)"

fun saveFetched :: "env \<Rightarrow> Calendar \<Rightarrow> gitem list \<Rightarrow> Store \<Rightarrow> Store" where
  "saveFetched E cal [] s = s"
| "saveFetched E cal (item # items) s =
     (if i_Status item = ''cancelled'' then saveFetched E cal items s
      else case SaveEvent s (fetchedEvent E cal item) of
             Inl err \<Rightarrow> saveFetched E cal items s
           | Inr s' \<Rightarrow> saveFetched E cal items s')"

definition fetchGoogleEvents :: "env \<Rightarrow> world \<Rightarrow> Account \<Rightarrow> Calendar \<Rightarrow> world" where
  "fetchGoogleEvents E w account cal =
     (let (now1, w) = tick E w;
          timeMin = AddDate now1 0 (- 1) 0;
          (now2, w) = tick E w;
          timeMax = AddDate now2 0 3 0;
          w = send (EventsGET (a_AccessToken account) (c_ID cal) timeMin timeMax) w
      in case eventsResponse E (c_ID cal) of
           DoFailed \<Rightarrow> w
         | BadStatus \<Rightarrow> w
         | Undecodable \<Rightarrow> w
         | Items items \<Rightarrow> w\<lparr> store := saveFetched E cal items (store w) \<rparr>)"

fun syncCalendars :: "env \<Rightarrow> Account \<Rightarrow> gcal list \<Rightarrow> world \<Rightarrow> world" where
  "syncCalendars E account [] w = w"
| "syncCalendars E account (item # items) w =
     (let cal = zeroCalendar\<lparr> c_ID := gc_ID item, c_AccountID := a_ID account,
                  c_Name := gc_Summary item, c_Description := gc_Description item,
                  c_Color := gc_BackgroundColor item, c_Visible := True \<rparr>;
          cal = (if c_Color cal = [] then cal\<lparr> c_Color := ''#4285f4'' \<rparr> else cal)
      in case SaveCalendar (store w) cal of
           Inl err \<Rightarrow> syncCalendars E account items w
         | Inr s \<Rightarrow> syncCalendars E account items
                      (fetchGoogleEvents E (w\<lparr> store := s \<rparr>) account cal))"

definition syncGoogleCalendarAPI :: "env \<Rightarrow> world \<Rightarrow> Account \<Rightarrow> world \<times> Account" where
  "syncGoogleCalendarAPI E w account =
     (let (now, w) = tick E w;
          (err, w, account) =
            (if now > a_TokenExpiry account then refreshGoogleToken E w account
             else (None, w, account))
      in if err \<noteq> None then (w, account)
         else
           let w = send (CalendarListGET (a_AccessToken account)) w
           in case calendarListResponse E (a_AccessToken account) of
                DoFailed \<Rightarrow> (w, account)
              | BadStatus \<Rightarrow> (w, account)
              | Undecodable \<Rightarrow> (w, account)
              | Items items \<Rightarrow>
                  let w = syncCalendars E account items w;
                      (now, w) = tick E w;
                      account = account\<lparr> a_LastSync := now \<rparr>
                  in (case SaveAccount (store w) account of
                        Inl e \<Rightarrow> (w, account)
                      | Inr s \<Rightarrow> (w\<lparr> store := s \<rparr>, account)))"


section \<open>iCalendar properties (the \<open>go-ical\<close> library, as far as this program calls it)\<close>

text \<open>
  \<open>Props\<close> and \<open>Params\<close> are Go maps from an upper-case name to a list of values,
  held here as association lists with one entry per name. \<open>Prop.Value\<close> is the raw
  value of the content line: \<open>SetText\<close> stores the text with backslash, semicolon and
  comma escaped by a backslash and a line feed as backslash-n; \<open>Text\<close>, which undoes
  that, is not called by this program. Formatting an instant
  (\<open>FormatDateTime\<close> for the layout \<open>20060102T150405Z\<close>, \<open>FormatDate\<close> for
  \<open>20060102\<close>) and \<open>Prop.DateTime(nil)\<close> are parameters of \<open>env\<close>.
\<close>

fun assign :: "'k \<Rightarrow> 'v \<Rightarrow> ('k \<times> 'v) list \<Rightarrow> ('k \<times> 'v) list" where
  "assign k v [] = [(k, v)]"
| "assign k v ((k', v') # kvs) = (if k' = k then (k, v) # kvs else (k', v') # assign k v kvs)"

definition Params_Get :: "(string \<times> string list) list \<Rightarrow> string \<Rightarrow> string" where
  "Params_Get params name = (case map_of params name of Some (v # _) \<Rightarrow> v | _ \<Rightarrow> [])"

definition Props_Get :: "(string \<times> Prop list) list \<Rightarrow> string \<Rightarrow> Prop option" where
  "Props_Get props name = (case map_of props name of Some (p # _) \<Rightarrow> Some p | _ \<Rightarrow> None)"

definition Props_Set :: "(string \<times> Prop list) list \<Rightarrow> Prop \<Rightarrow> (string \<times> Prop list) list" where
  "Props_Set props prop = assign (p_Name prop) [prop] props"

definition NewProp :: "string \<Rightarrow> Prop" where
  "NewProp name = \<lparr> p_Name = name, p_Params = [], p_Value = [] \<rparr>"

text \<open>The default value type of the property names this program sets.\<close>

definition defaultValueType :: "string \<Rightarrow> string" where
  "defaultValueType name =
     (if name \<in> set [''DTSTART'', ''DTEND'', ''DTSTAMP'', ''CREATED'', ''LAST-MODIFIED'']
      then ''DATE-TIME'' else ''TEXT'')"

definition SetValueType :: "Prop \<Rightarrow> string \<Rightarrow> Prop" where
  "SetValueType prop t =
     (if t = [] \<or> t = defaultValueType (p_Name prop)
      then prop\<lparr> p_Params := [kv \<leftarrow> p_Params prop. fst kv \<noteq> ''VALUE''] \<rparr>
      else prop\<lparr> p_Params := assign ''VALUE'' [t] (p_Params prop) \<rparr>)"

fun escapeText :: "string \<Rightarrow> string" where
  "escapeText [] = []"
| "escapeText (c # cs) =
     (if c = CHR 0x5C \<or> c = CHR 0x3B \<or> c = CHR 0x2C then CHR 0x5C # c # escapeText cs
      else if c = CHR 0x0A then CHR 0x5C # CHR ''n'' # escapeText cs
      else c # escapeText cs)"

definition SetText :: "(string \<times> Prop list) list \<Rightarrow> string \<Rightarrow> string \<Rightarrow> (string \<times> Prop list) list" where
  "SetText props name text =
     Props_Set props ((SetValueType (NewProp name) ''TEXT'')\<lparr> p_Value := escapeText text \<rparr>)"

definition SetDate :: "env \<Rightarrow> (string \<times> Prop list) list \<Rightarrow> string \<Rightarrow> time \<Rightarrow> (string \<times> Prop list) list" where
  "SetDate E props name t =
     Props_Set props ((SetValueType (NewProp name) ''DATE'')\<lparr> p_Value := FormatDate E t \<rparr>)"

definition SetDateTime :: "env \<Rightarrow> (string \<times> Prop list) list \<Rightarrow> string \<Rightarrow> time \<Rightarrow> (string \<times> Prop list) list" where
  "SetDateTime E props name t =
     Props_Set props ((SetValueType (NewProp name) ''DATE-TIME'')\<lparr> p_Value := FormatDateTime E t \<rparr>)"


section \<open>The CalDAV provider (\<open>pkg/providers/caldav\<close>)\<close>

datatype parse_error = NoData | NoVEVENT

definition parseVEVENT :: "env \<Rightarrow> CalendarObject \<Rightarrow> string \<Rightarrow> Component \<Rightarrow> Event" where
  "parseVEVENT E obj calendarID component =
     (let props = comp_Props component;
          event = zeroEvent\<lparr> e_CalendarID := calendarID, e_ETag := o_ETag obj,
                    e_Status := StatusConfirmed \<rparr>;
          event = (case Props_Get props ''UID'' of
                     Some prop \<Rightarrow> event\<lparr> e_UID := p_Value prop, e_ID := p_Value prop \<rparr>
                   | None \<Rightarrow> event);
          event = (case Props_Get props ''SUMMARY'' of
                     Some prop \<Rightarrow> event\<lparr> e_Title := p_Value prop \<rparr> | None \<Rightarrow> event);
          event = (case Props_Get props ''DESCRIPTION'' of
                     Some prop \<Rightarrow> event\<lparr> e_Description := p_Value prop \<rparr> | None \<Rightarrow> event);
          event = (case Props_Get props ''LOCATION'' of
                     Some prop \<Rightarrow> event\<lparr> e_Location := p_Value prop \<rparr> | None \<Rightarrow> event);
          event = (case Props_Get props ''DTSTART'' of
                     Some prop \<Rightarrow>
                       let event = (case PropDateTime E prop of
                                      Some t \<Rightarrow> event\<lparr> e_Start := t \<rparr> | None \<Rightarrow> event)
                       in if Params_Get (p_Params prop) ''VALUE'' = ''DATE''
                          then event\<lparr> e_AllDay := True \<rparr> else event
                   | None \<Rightarrow> event);
          event = (case Props_Get props ''DTEND'' of
                     Some prop \<Rightarrow> (case PropDateTime E prop of
                                    Some t \<Rightarrow> event\<lparr> e_End := t \<rparr> | None \<Rightarrow> event)
                   | None \<Rightarrow> event);
          event = (case Props_Get props ''CREATED'' of
                     Some prop \<Rightarrow> (case PropDateTime E prop of
                                    Some t \<Rightarrow> event\<lparr> e_Created := t \<rparr> | None \<Rightarrow> event)
                   | None \<Rightarrow> event);
          event = (case Props_Get props ''LAST-MODIFIED'' of
                     Some prop \<Rightarrow> (case PropDateTime E prop of
                                    Some t \<Rightarrow> event\<lparr> e_Modified := t \<rparr> | None \<Rightarrow> event)
                   | None \<Rightarrow> event)
      in case Props_Get props ''STATUS'' of
           Some prop \<Rightarrow>
             if p_Value prop = ''CONFIRMED'' then event\<lparr> e_Status := StatusConfirmed \<rparr>
             else if p_Value prop = ''TENTATIVE'' then event\<lparr> e_Status := StatusTentative \<rparr>
             else if p_Value prop = ''CANCELLED''
             then event\<lparr> e_Status := StatusCancelled, e_Cancelled := True \<rparr>
             else event
         | None \<Rightarrow> event)"

definition parseICalEvent :: "env \<Rightarrow> CalendarObject \<Rightarrow> string \<Rightarrow> parse_error + Event" where
  "parseICalEvent E obj calendarID =
     (case o_Data obj of
        None \<Rightarrow> Inl NoData
      | Some data \<Rightarrow>
          (case [c \<leftarrow> comp_Children data. comp_Name c = ''VEVENT''] of
             [] \<Rightarrow> Inl NoVEVENT
           | component # _ \<Rightarrow> Inr (parseVEVENT E obj calendarID component)))"

text \<open>\<open>stamp\<close> is the reading of \<open>time.Now()\<close> that becomes \<open>DTSTAMP\<close>.\<close>

definition eventToICal :: "env \<Rightarrow> time \<Rightarrow> Event \<Rightarrow> Component" where
  "eventToICal E stamp event =
     (let calProps = SetText [] ''VERSION'' ''2.0'';
          calProps = SetText calProps ''PRODID'' ''-//UniCal//EN'';
          props = SetText [] ''UID'' (e_UID event);
          props = SetText props ''SUMMARY'' (e_Title event);
          props = (if e_Description event \<noteq> []
                   then SetText props ''DESCRIPTION'' (e_Description event) else props);
          props = (if e_Location event \<noteq> []
                   then SetText props ''LOCATION'' (e_Location event) else props);
          props = (if e_AllDay event
                   then SetDate E (SetDate E props ''DTSTART'' (e_Start event))
                          ''DTEND'' (e_End event)
                   else SetDateTime E (SetDateTime E props ''DTSTART'' (e_Start event))
                          ''DTEND'' (e_End event));
          props = SetDateTime E props ''DTSTAMP'' stamp;
          props = (if e_Status event = StatusConfirmed then SetText props ''STATUS'' ''CONFIRMED''
                   else if e_Status event = StatusTentative
                   then SetText props ''STATUS'' ''TENTATIVE''
                   else if e_Status event = StatusCancelled
                   then SetText props ''STATUS'' ''CANCELLED''
                   else props)
      in Component ''VCALENDAR'' calProps [Component ''VEVENT'' props []])"

text \<open>\<open>Client.GetEvents\<close> after the query: objects that do not parse are skipped.\<close>

fun parseObjects :: "env \<Rightarrow> string \<Rightarrow> CalendarObject list \<Rightarrow> Event list" where
  "parseObjects E calendarID [] = []"
| "parseObjects E calendarID (obj # objs) =
     (case parseICalEvent E obj calendarID of
        Inl err \<Rightarrow> parseObjects E calendarID objs
      | Inr event \<Rightarrow> event # parseObjects E calendarID objs)"

fun saveEvents :: "string \<Rightarrow> Event list \<Rightarrow> Store \<Rightarrow> Store" where
  "saveEvents calID [] s = s"
| "saveEvents calID (event # evs) s =
     (case SaveEvent s (event\<lparr> e_CalendarID := calID \<rparr>) of
        Inl err \<Rightarrow> saveEvents calID evs s
      | Inr s' \<Rightarrow> saveEvents calID evs s')"

text \<open>
  The loop of \<open>syncCalDAVAccount\<close> over the calendars that \<open>ListCalendars\<close> returned
  (for an account that is not a Google account: path, name and description from the
  server, the default colour, visible, writable).
\<close>

fun syncDAVCalendars :: "env \<Rightarrow> Account \<Rightarrow> dav_calendar list \<Rightarrow> world \<Rightarrow> world" where
  "syncDAVCalendars E account [] w = w"
| "syncDAVCalendars E account (dc # dcs) w =
     (let cal = zeroCalendar\<lparr> c_ID := d_Path dc, c_AccountID := a_ID account,
                  c_Name := d_Name dc, c_Description := d_Description dc,
                  c_Color := ''#4285f4'', c_Visible := True, c_ReadOnly := False \<rparr>
      in case SaveCalendar (store w) cal of
           Inl err \<Rightarrow> syncDAVCalendars E account dcs w
         | Inr s \<Rightarrow>
             let w = w\<lparr> store := s \<rparr>;
                 (now1, w) = tick E w;
                 start = AddDate now1 0 (- 1) 0;
                 (now2, w) = tick E w;
                 end = AddDate now2 0 3 0;
                 w = send (CalDAVQuery (c_ID cal) start end) w
             in (case davObjects E (c_ID cal) of
                   None \<Rightarrow> syncDAVCalendars E account dcs w
                 | Some objects \<Rightarrow>
                     syncDAVCalendars E account dcs
                       (w\<lparr> store := saveEvents (c_ID cal)
                                       (parseObjects E (c_ID cal) objects) (store w) \<rparr>)))"

definition syncCalDAVAccount :: "env \<Rightarrow> world \<Rightarrow> Account \<Rightarrow> world \<times> Account" where
  "syncCalDAVAccount E w account =
     (if a_Type account = AccountTypeGoogle then syncGoogleCalendarAPI E w account
      else if \<not> homeSetFound E then (w, account)
      else case davCalendars E of
             None \<Rightarrow> (w, account)
           | Some cals \<Rightarrow>
               let w = syncDAVCalendars E account cals w;
                   (now, w) = tick E w;
                   account = account\<lparr> a_LastSync := now \<rparr>
               in (case SaveAccount (store w) account of
                     Inl e \<Rightarrow> (w, account)
                   | Inr s \<Rightarrow> (w\<lparr> store := s \<rparr>, account)))"


section \<open>The OAuth redirect listeners\<close>

text \<open>
  A callback request is its query string, as pairs. Each handler sends one value, on
  the code channel or on the error channel; the receiver selects on the two channels
  and on its timer. \<open>handleCallback\<close> is the handler of \<open>OAuthCallbackServer\<close>,
  \<open>oauthCallback\<close> the handler that \<open>startGoogleOAuth\<close> installs.
\<close>

type_synonym query = "(string \<times> string) list"

definition Query_Get :: "query \<Rightarrow> string \<Rightarrow> string" where
  "Query_Get q name = (case map_of q name of Some v \<Rightarrow> v | None \<Rightarrow> [])"

datatype signal = OnCodeChan string | OnErrChan string

definition handleCallback :: "query \<Rightarrow> signal" where
  "handleCallback q =
     (let code = Query_Get q ''code''
      in if code = []
         then let errMsg = Query_Get q ''error'';
                  errMsg = (if errMsg = [] then ''no authorization code received'' else errMsg)
              in OnErrChan (''OAuth error: '' @ errMsg)
         else OnCodeChan code)"

definition oauthCallback :: "query \<Rightarrow> signal" where
  "oauthCallback q =
     (let code = Query_Get q ''code''
      in if code = [] then OnErrChan ''no code received'' else OnCodeChan code)"

datatype outcome = Captured string | Failure string | TimedOut

text \<open>
  What the receiver of \<open>startGoogleOAuth\<close> resolves to when the first thing to become
  ready is a callback with query \<open>q\<close> (\<open>Some q\<close>) or the five-minute timer (\<open>None\<close>).
\<close>

definition oauthOutcome :: "query option \<Rightarrow> outcome" where
  "oauthOutcome first =
     (case first of
        None \<Rightarrow> TimedOut
      | Some q \<Rightarrow> (case oauthCallback q of
                    OnCodeChan code \<Rightarrow> Captured code
                  | OnErrChan err \<Rightarrow> Failure err))"

text \<open>The same for \<open>WaitForCode\<close>, whose third case is the caller's context ending.\<close>

definition WaitForCode :: "query option \<Rightarrow> outcome" where
  "WaitForCode first =
     (case first of
        None \<Rightarrow> TimedOut
      | Some q \<Rightarrow> (case handleCallback q of
                    OnCodeChan code \<Rightarrow> Captured code
                  | OnErrChan err \<Rightarrow> Failure err))"


section \<open>The range query as the specification words it\<close>



section \<open>Sample data\<close>

definition sampleAccount :: Account where
  "sampleAccount = zeroAccount\<lparr> a_ID := ''acc-1'', a_Name := ''Local'',
     a_Type := AccountTypeLocal, a_Enabled := True \<rparr>"

definition workCalendar :: Calendar where
  "workCalendar = zeroCalendar\<lparr> c_ID := ''work'', c_AccountID := ''acc-1'',
     c_Name := ''My Calendar'', c_Color := ''#4285f4'', c_Visible := True \<rparr>"

definition hiddenCalendar :: Calendar where
  "hiddenCalendar = zeroCalendar\<lparr> c_ID := ''hidden'', c_AccountID := ''acc-1'',
     c_Name := ''Hidden'' \<rparr>"

definition lateRow :: event_row where
  "lateRow = \<lparr> r_id = ''late'', r_calendar_id = ''work'', r_uid = None, r_title = ''Late call'',
     r_description = None, r_location = None,
     r_start_time = Date 2024 6 10 23 0 0, r_end_time = Date 2024 6 11 1 0 0,
     r_all_day = False, r_color = None, r_recurrence = None, r_reminders = None,
     r_created = None, r_modified = None, r_etag = None, r_status = Some [],
     r_cancelled = False \<rparr>"

definition standupRow :: event_row where
  "standupRow = lateRow\<lparr> r_id := ''standup'', r_title := ''Standup'',
     r_start_time := Date 2024 6 10 9 0 0, r_end_time := Date 2024 6 10 9 15 0,
     r_status := None \<rparr>"

definition sampleStore :: Store where
  "sampleStore = \<lparr> accounts = [sampleAccount],
     calendars = [workCalendar, hiddenCalendar],
     events = [lateRow, lateRow\<lparr> r_id := ''gone'', r_cancelled := True \<rparr>,
               lateRow\<lparr> r_id := ''secret'', r_calendar_id := ''hidden'' \<rparr>, standupRow] \<rparr>"






text \<open>A store with an account and no calendar, as after adding an account whose sync has not yet run.\<close>

definition orphanStore :: Store where
  "orphanStore = \<lparr> accounts = [sampleAccount], calendars = [], events = [] \<rparr>"

text \<open>
  An environment in which every request fails, nothing parses, and the clock stands at
  noon of 15 March 2024; the samples below change single fields of it.
\<close>

definition quietEnv :: env where
  "quietEnv = \<lparr> Now = (\<lambda>n. Date 2024 3 15 12 0 0), ParseRFC3339 = (\<lambda>v. None),
     ParseDateOnly = (\<lambda>v. None), FormatDateTime = (\<lambda>t. []), FormatDate = (\<lambda>t. []),
     PropDateTime = (\<lambda>p. None), refreshResponse = (\<lambda>token. PostFailed),
     calendarListResponse = (\<lambda>token. DoFailed), eventsResponse = (\<lambda>calendarID. DoFailed),
     homeSetFound = False, davCalendars = None, davObjects = (\<lambda>calendarID. None) \<rparr>"

definition sampleWorld :: world where
  "sampleWorld = \<lparr> store = sampleStore, sent = [], ticks = 0 \<rparr>"

definition googleAccount :: Account where
  "googleAccount = zeroAccount\<lparr> a_ID := ''acc-1'', a_Name := ''Google - me@example.org'',
     a_Type := AccountTypeGoogle, a_Enabled := True, a_AccessToken := ''old-token'',
     a_RefreshToken := ''refresh-1'', a_TokenExpiry := Date 2024 3 15 11 0 0 \<rparr>"






definition workGcal :: gcal where
  "workGcal = \<lparr> gc_ID = ''work'', gc_Summary = ''My Calendar'', gc_Description = [],
     gc_BackgroundColor = [] \<rparr>"

definition staleAccount :: Account where
  "staleAccount = googleAccount\<lparr> a_RefreshToken := [] \<rparr>"

definition refreshingEnv :: env where
  "refreshingEnv = quietEnv\<lparr> refreshResponse := (\<lambda>token. RefreshJSON ''new-token'' 3599 [] []),
     calendarListResponse := (\<lambda>token. Items [workGcal]) \<rparr>"

definition longLivedEnv :: env where
  "longLivedEnv = quietEnv\<lparr> refreshResponse := (\<lambda>token. RefreshJSON ''new-token'' 10000000000 [] []) \<rparr>"

text \<open>The part of \<open>syncGoogleCalendarAPI\<close> that follows the refresh, named for the proofs.\<close>

definition afterAuth :: "env \<Rightarrow> world \<Rightarrow> Account \<Rightarrow> world \<times> Account" where
  "afterAuth E w account =
     (let w = send (CalendarListGET (a_AccessToken account)) w
      in case calendarListResponse E (a_AccessToken account) of
           DoFailed \<Rightarrow> (w, account)
         | BadStatus \<Rightarrow> (w, account)
         | Undecodable \<Rightarrow> (w, account)
         | Items items \<Rightarrow>
             let w = syncCalendars E account items w;
                 (now, w) = tick E w;
                 account = account\<lparr> a_LastSync := now \<rparr>
             in (case SaveAccount (store w) account of
                   Inl e \<Rightarrow> (w, account)
                 | Inr s \<Rightarrow> (w\<lparr> store := s \<rparr>, account)))"

definition isRefresh :: "request \<Rightarrow> bool" where
  "isRefresh r = (case r of RefreshPOST token \<Rightarrow> True | _ \<Rightarrow> False)"


section \<open>Facts about civil dates\<close>

lemma div_bounds_int: "0 < k \<Longrightarrow> k * (x div k) \<le> (x::int) \<and> x < k * (x div k) + k"
proof -
  assume k: "0 < k"
  have "x = k * (x div k) + x mod k" by simp
  moreover have "0 \<le> x mod k" "x mod k < k" using k by simp_all
  ultimately show ?thesis by linarith
qed

lemma div_eq_int: "0 < k \<Longrightarrow> 0 \<le> r \<Longrightarrow> r < k \<Longrightarrow> (k * q + r) div k = (q::int)"
  by simp

lemma mod_eq_int: "0 < k \<Longrightarrow> 0 \<le> r \<Longrightarrow> r < k \<Longrightarrow> (k * q + r) mod k = (r::int)"
  by simp

lemma small_div4: "0 \<le> (n::int) \<Longrightarrow> n \<le> 4 \<Longrightarrow> n div 4 = (if n = 4 then 1 else 0)"
  by simp

lemma absYear_sound:
  assumes "absYear n = (year, yday)"
  shows "daysSinceEpoch year + yday = n"
    and "0 \<le> yday" and "yday \<le> (if isLeap year then 365 else 364)"
proof -
  define a where "a = n div 146097"
  define d1 where "d1 = n - 146097 * a"
  define b0 where "b0 = d1 div 36524"
  define b where "b = b0 - b0 div 4"
  define d2 where "d2 = d1 - 36524 * b"
  define c where "c = d2 div 1461"
  define d3 where "d3 = d2 - 1461 * c"
  define e0 where "e0 = d3 div 365"
  define e where "e = e0 - e0 div 4"
  define d4 where "d4 = d3 - 365 * e"
  have yr: "year = 400 * a + 100 * b + 4 * c + e + 1" and yd: "yday = d4"
    using assms unfolding absYear_def Let_def a_def d1_def b0_def b_def d2_def c_def d3_def e0_def e_def d4_def
    by auto
  have d1: "0 \<le> d1" "d1 < 146097"
    using div_bounds_int [of 146097 n] unfolding d1_def a_def by simp_all
  have b0': "36524 * b0 \<le> d1" "d1 < 36524 * b0 + 36524"
    using div_bounds_int [of 36524 d1] unfolding b0_def by simp_all
  have b0: "0 \<le> b0" "b0 \<le> 4" using b0' d1 by linarith+
  have bq: "b = (if b0 = 4 then 3 else b0)"
    unfolding b_def using small_div4 [OF b0] by simp
  have b: "0 \<le> b" "b \<le> 3" "0 \<le> d2" "d2 \<le> 36524" "d2 = 36524 \<longrightarrow> b = 3"
    unfolding d2_def using bq b0 b0' d1 by (auto split: if_splits)
  have c': "1461 * c \<le> d2" "d2 < 1461 * c + 1461"
    using div_bounds_int [of 1461 d2] unfolding c_def by simp_all
  have c: "0 \<le> c" "c \<le> 24" "0 \<le> d3" "d3 \<le> 1460"
    unfolding d3_def using c' b by linarith+
  have e0': "365 * e0 \<le> d3" "d3 < 365 * e0 + 365"
    using div_bounds_int [of 365 d3] unfolding e0_def by simp_all
  have e0: "0 \<le> e0" "e0 \<le> 4" using e0' c by linarith+
  have eq: "e = (if e0 = 4 then 3 else e0)"
    unfolding e_def using small_div4 [OF e0] by simp
  have e: "0 \<le> e" "e \<le> 3" "0 \<le> d4" "d4 \<le> 365" "d4 = 365 \<longrightarrow> e = 3 \<and> d3 = 1460"
    unfolding d4_def using eq e0 e0' c by (auto split: if_splits)
  have n: "n = 146097 * a + 36524 * b + 1461 * c + 365 * e + d4"
    unfolding d4_def d3_def d2_def d1_def by simp
  have "year - 1 = 4 * (100 * a + 25 * b + c) + e" unfolding yr by simp
  then have q4: "(year - 1) div 4 = 100 * a + 25 * b + c"
    using div_eq_int [of 4 e] e by simp
  have "year - 1 = 100 * (4 * a + b) + (4 * c + e)" unfolding yr by simp
  then have q100: "(year - 1) div 100 = 4 * a + b"
    using div_eq_int [of 100 "4 * c + e"] e c by simp
  have "year - 1 = 400 * a + (100 * b + 4 * c + e)" unfolding yr by simp
  then have q400: "(year - 1) div 400 = a"
    using div_eq_int [of 400 "100 * b + 4 * c + e"] e c b by simp
  show "daysSinceEpoch year + yday = n"
    unfolding daysSinceEpoch_def Let_def q4 q100 q400 yd n unfolding yr by simp
  show "0 \<le> yday" using e yd by simp
  have "isLeap year" if "d4 = 365"
  proof -
    from that e have e3: "e = 3" and d3: "d3 = 1460" by auto
    have "year = 4 * (100 * a + 25 * b + c + 1) + 0" unfolding yr e3 by simp
    then have m4: "year mod 4 = 0"
      using mod_eq_int [of 4 0] by simp
    show ?thesis
    proof (cases "c = 24")
      case True
      then have "d2 = 36524" using d3 unfolding d3_def by simp
      then have "b = 3" using b by simp
      then have "year = 400 * (a + 1) + 0" unfolding yr e3 True by simp
      then have "year mod 400 = 0" using mod_eq_int [of 400 0] by simp
      then show ?thesis using m4 by (simp add: isLeap_def)
    next
      case False
      then have c24: "c < 24" using c by simp
      have yq: "year = 100 * (4 * a + b) + (4 * c + 4)" unfolding yr e3 by simp
      have "year mod 100 = 4 * c + 4"
        unfolding yq by (rule mod_eq_int) (use c c24 in auto)
      then have "year mod 100 \<noteq> 0" using c by simp
      then show ?thesis using m4 by (simp add: isLeap_def)
    qed
  qed
  note leap = this
  show "yday \<le> (if isLeap year then 365 else 364)"
  proof (cases "d4 = 365")
    case True
    then show ?thesis using leap yd by simp
  next
    case False
    then have "d4 \<le> 364" using e by linarith
    then show ?thesis using yd by simp
  qed
qed

lemma absMonthDay_sound:
  assumes "0 \<le> yday" and "yday \<le> (if isLeap year then 365 else 364)"
    and "absMonthDay year yday = (month, day)"
  shows "1 \<le> month \<and> month \<le> 12 \<and> 1 \<le> day \<and> day \<le> 31 \<and>
         daysBefore ! nat (month - 1) + (if isLeap year \<and> month \<ge> 3 then 1 else 0) + (day - 1) = yday"
proof (cases "isLeap year \<and> yday = 59")
  case True
  then show ?thesis using assms by (simp add: absMonthDay_def daysBefore_def)
next
  case False
  define d where "d = (if isLeap year \<and> yday > 59 then yday - 1 else yday)"
  define k where "k = d div 31"
  have d: "0 \<le> d" "d \<le> 364" using assms(1,2) False unfolding d_def by (auto split: if_splits)
  have k': "31 * k \<le> d" "d < 31 * k + 31"
    using div_bounds_int [of 31 d] unfolding k_def by simp_all
  then have "0 \<le> k" "k \<le> 11" using d by linarith+
  then have kk: "k = 0 \<or> k = 1 \<or> k = 2 \<or> k = 3 \<or> k = 4 \<or> k = 5 \<or> k = 6
    \<or> k = 7 \<or> k = 8 \<or> k = 9 \<or> k = 10 \<or> k = 11" by arith
  have md: "(month, day) =
     (let end = daysBefore ! nat (k + 1);
          (month, begin) = (if d \<ge> end then (k + 1, end) else (k, daysBefore ! nat k))
      in (month + 1, d - begin + 1))"
    using assms(3) False by (auto simp: absMonthDay_def Let_def d_def k_def)
  have yd: "yday = (if isLeap year \<and> yday > 59 then d + 1 else d)"
    unfolding d_def by simp
  from kk show ?thesis
    using md k' d yd False
    by (elim disjE) (auto simp: daysBefore_def Let_def split: if_splits)
qed

lemma absDate_sound:
  assumes "absDate t = (year, month, day)"
  shows "1 \<le> month" "month \<le> 12" "1 \<le> day" "day \<le> 31"
    and "daysSinceEpoch year + daysBefore ! nat (month - 1)
           + (if isLeap year \<and> month \<ge> 3 then 1 else 0) + (day - 1) = t div 86400"
proof -
  obtain yday where y: "absYear (t div 86400) = (year, yday)"
    and md: "absMonthDay year yday = (month, day)"
    using assms unfolding absDate_def by (auto split: prod.splits)
  note ys = absYear_sound [OF y]
  note ms = absMonthDay_sound [OF ys(2) ys(3) md]
  show "1 \<le> month" "month \<le> 12" "1 \<le> day" "day \<le> 31" using ms by simp_all
  show "daysSinceEpoch year + daysBefore ! nat (month - 1)
           + (if isLeap year \<and> month \<ge> 3 then 1 else 0) + (day - 1) = t div 86400"
    using ms ys(1) by simp
qed

lemma Date_in_range:
  assumes "1 \<le> month" "month \<le> 12"
  shows "Date year month day hour minute sec =
           (daysSinceEpoch year + daysBefore ! nat (month - 1)
             + (if isLeap year \<and> month \<ge> 3 then 1 else 0) + (day - 1)) * 86400
           + hour * 3600 + minute * 60 + sec"
proof -
  have "(month - 1) div 12 = 0" "(month - 1) mod 12 = month - 1"
    using assms by simp_all
  then show ?thesis unfolding Date_def Let_def by simp
qed

lemma Date_of_absDate:
  "Date (Year t) (Month t) (Day t) 0 0 0 = t - t mod 86400"
proof -
  obtain year month day where a: "absDate t = (year, month, day)"
    by (cases "absDate t") auto
  note s = absDate_sound [OF a]
  have "Date year month day 0 0 0 = (t div 86400) * 86400"
    using Date_in_range [OF s(1) s(2), of year day 0 0 0] s(5) by simp
  also have "\<dots> = t - t mod 86400"
    by (simp add: minus_mod_eq_div_mult)
  finally show ?thesis using a by (simp add: Year_def Month_def Day_def)
qed

section \<open>Facts about the store\<close>





lemma GetEventsForDate_eq:
  "GetEventsForDate s date = GetEventsInRange s (date - date mod 86400) (date - date mod 86400 + 86400)"
  unfolding GetEventsForDate_def Let_def Date_of_absDate by simp





lemma upsert_keys:
  "key x \<in> set (map key xs) \<Longrightarrow> map key (upsert key x xs) = map key xs"
  unfolding upsert_def by (induction xs) auto

lemma upsert_key_set:
  "set (map key (upsert key x xs)) = insert (key x) (set (map key xs))"
  unfolding upsert_def by (induction xs) auto

lemma upsert_distinct:
  "distinct (map key xs) \<Longrightarrow> distinct (map key (upsert key x xs))"
proof (cases "key x \<in> set (map key xs)")
  case True
  assume "distinct (map key xs)"
  then show ?thesis using upsert_keys [OF True] by simp
next
  case False
  assume "distinct (map key xs)"
  then show ?thesis using False by (simp add: upsert_def)
qed



lemma upsert_new:
  "key x \<notin> set (map key xs) \<Longrightarrow> upsert key x xs = xs @ [x]"
  by (simp add: upsert_def)

lemma upsert_set:
  "set (upsert key x xs) \<subseteq> insert x (set xs)"
  unfolding upsert_def by auto

lemma SaveAccount_ok: "store_ok s \<Longrightarrow> SaveAccount s a = Inr s' \<Longrightarrow> store_ok s'"
  unfolding store_ok_def SaveAccount_def
  using upsert_distinct [of a_ID "accounts s" a] upsert_key_set [of a_ID a "accounts s"]
  by auto

lemma SaveCalendar_ok: "store_ok s \<Longrightarrow> SaveCalendar s c = Inr s' \<Longrightarrow> store_ok s'"
proof -
  assume ok: "store_ok s" and sv: "SaveCalendar s c = Inr s'"
  then have fk: "c_AccountID c \<in> set (map a_ID (accounts s))"
    and s': "s' = s\<lparr>calendars := upsert c_ID c (calendars s)\<rparr>"
    by (auto simp: SaveCalendar_def split: if_splits)
  have "\<forall>x \<in> set (upsert c_ID c (calendars s)). c_AccountID x \<in> set (map a_ID (accounts s))"
    using upsert_set [of c_ID c "calendars s"] fk ok unfolding store_ok_def by auto
  then show ?thesis
    using ok upsert_distinct [of c_ID "calendars s" c] upsert_key_set [of c_ID c "calendars s"]
    unfolding store_ok_def s' by auto
qed

lemma SaveEvent_ok: "store_ok s \<Longrightarrow> SaveEvent s e = Inr s' \<Longrightarrow> store_ok s'"
proof -
  assume ok: "store_ok s" and sv: "SaveEvent s e = Inr s'"
  then have fk: "e_CalendarID e \<in> set (map c_ID (calendars s))"
    and s': "s' = s\<lparr>events := upsert r_id (eventRow e) (events s)\<rparr>"
    by (auto simp: SaveEvent_def split: if_splits)
  have "\<forall>x \<in> set (upsert r_id (eventRow e) (events s)). r_calendar_id x \<in> set (map c_ID (calendars s))"
    using upsert_set [of r_id "eventRow e" "events s"] fk ok unfolding store_ok_def
    by (auto simp: eventRow_def)
  then show ?thesis
    using ok upsert_distinct [of r_id "events s" "eventRow e"]
    unfolding store_ok_def s' by auto
qed

lemma DeleteAccount_eq:
  assumes "store_ok s"
  shows "DeleteAccount s ident = Inr (s\<lparr>accounts := [a \<leftarrow> accounts s. a_ID a \<noteq> ident],
            calendars := [c \<leftarrow> calendars s. c_AccountID c \<noteq> ident],
            events := [r \<leftarrow> events s. \<not> (\<exists>c \<in> set (calendars s).
                          c_ID c = r_calendar_id r \<and> c_AccountID c = ident)]\<rparr>)"
proof (cases "ident \<in> set (map a_ID (accounts s))")
  case True
  then have g: "set (map a_ID [a \<leftarrow> accounts s. a_ID a = ident]) = {ident}" by auto
  have e: "[r \<leftarrow> events s. r_calendar_id r \<notin> set (map c_ID [c \<leftarrow> calendars s. c_AccountID c \<in> {ident}])]
         = [r \<leftarrow> events s. \<not> (\<exists>c \<in> set (calendars s). c_ID c = r_calendar_id r \<and> c_AccountID c = ident)]"
    by (rule filter_cong [OF refl]) force
  show ?thesis unfolding DeleteAccount_def Let_def g e by simp
next
  case False
  then have g: "[a \<leftarrow> accounts s. a_ID a = ident] = []" by (auto simp: filter_empty_conv)
  have nc: "\<forall>c \<in> set (calendars s). c_AccountID c \<noteq> ident"
    using assms False unfolding store_ok_def by auto
  have c: "[c \<leftarrow> calendars s. c_AccountID c \<noteq> ident] = calendars s"
    using nc by (simp add: filter_id_conv)
  have e: "[r \<leftarrow> events s. \<not> (\<exists>c \<in> set (calendars s). c_ID c = r_calendar_id r \<and> c_AccountID c = ident)]
           = events s"
    using nc by (simp add: filter_id_conv)
  show ?thesis unfolding DeleteAccount_def Let_def g c e by simp
qed

lemma fk_event:
  "store_ok s \<Longrightarrow> r \<in> set (events s) \<Longrightarrow> \<exists>c \<in> set (calendars s). c_ID c = r_calendar_id r"
  unfolding store_ok_def by force

lemma fk_calendar:
  "store_ok s \<Longrightarrow> c \<in> set (calendars s) \<Longrightarrow> \<exists>a \<in> set (accounts s). a_ID a = c_AccountID c"
  unfolding store_ok_def by force

lemma DeleteCalendar_eq:
  assumes "store_ok s"
  shows "DeleteCalendar s ident = Inr (s\<lparr>calendars := [c \<leftarrow> calendars s. c_ID c \<noteq> ident],
            events := [r \<leftarrow> events s. r_calendar_id r \<noteq> ident]\<rparr>)"
proof -
  have "[r \<leftarrow> events s. r_calendar_id r \<notin> set (map c_ID [c \<leftarrow> calendars s. c_ID c = ident])]
        = [r \<leftarrow> events s. r_calendar_id r \<noteq> ident]"
  proof (rule filter_cong [OF refl])
    fix r assume "r \<in> set (events s)"
    then obtain c where "c \<in> set (calendars s)" "c_ID c = r_calendar_id r"
      using fk_event [OF assms] by blast
    then show "(r_calendar_id r \<notin> set (map c_ID [c \<leftarrow> calendars s. c_ID c = ident]))
               = (r_calendar_id r \<noteq> ident)"
      by force
  qed
  then show ?thesis unfolding DeleteCalendar_def Let_def by simp
qed

lemma DeleteAccount_ok: "store_ok s \<Longrightarrow> DeleteAccount s ident = Inr s' \<Longrightarrow> store_ok s'"
proof -
  assume ok: "store_ok s" and d: "DeleteAccount s ident = Inr s'"
  have s': "s' = s\<lparr>accounts := [a \<leftarrow> accounts s. a_ID a \<noteq> ident],
            calendars := [c \<leftarrow> calendars s. c_AccountID c \<noteq> ident],
            events := [r \<leftarrow> events s. \<not> (\<exists>c \<in> set (calendars s).
                          c_ID c = r_calendar_id r \<and> c_AccountID c = ident)]\<rparr>"
    using d unfolding DeleteAccount_eq [OF ok] by simp
  have 1: "\<forall>c \<in> set (calendars s'). c_AccountID c \<in> set (map a_ID (accounts s'))"
    unfolding s' using fk_calendar [OF ok] by force
  have 2: "\<forall>r \<in> set (events s'). r_calendar_id r \<in> set (map c_ID (calendars s'))"
    unfolding s' using fk_event [OF ok] by force
  have 3: "distinct (map a_ID (accounts s'))" "distinct (map c_ID (calendars s'))"
    "distinct (map r_id (events s'))"
    unfolding s' using ok by (simp_all add: store_ok_def distinct_map_filter)
  show ?thesis unfolding store_ok_def using 1 2 3 by blast
qed

lemma DeleteCalendar_ok: "store_ok s \<Longrightarrow> DeleteCalendar s ident = Inr s' \<Longrightarrow> store_ok s'"
proof -
  assume ok: "store_ok s" and d: "DeleteCalendar s ident = Inr s'"
  have s': "s' = s\<lparr>calendars := [c \<leftarrow> calendars s. c_ID c \<noteq> ident],
            events := [r \<leftarrow> events s. r_calendar_id r \<noteq> ident]\<rparr>"
    using d unfolding DeleteCalendar_eq [OF ok] by simp
  have 1: "\<forall>c \<in> set (calendars s'). c_AccountID c \<in> set (map a_ID (accounts s'))"
    unfolding s' using fk_calendar [OF ok] by force
  have 2: "\<forall>r \<in> set (events s'). r_calendar_id r \<in> set (map c_ID (calendars s'))"
    unfolding s' using fk_event [OF ok] by force
  have 3: "distinct (map a_ID (accounts s'))" "distinct (map c_ID (calendars s'))"
    "distinct (map r_id (events s'))"
    unfolding s' using ok by (simp_all add: store_ok_def distinct_map_filter)
  show ?thesis unfolding store_ok_def using 1 2 3 by blast
qed

lemma sampleStore_ok: "store_ok sampleStore"
  by (simp add: store_ok_def sampleStore_def sampleAccount_def workCalendar_def
      hiddenCalendar_def lateRow_def standupRow_def zeroAccount_def zeroCalendar_def)


section \<open>The claims\<close>





text \<open>
  C3. On a database that satisfies its schema, \<open>DeleteAccount\<close> leaves the accounts other
  than the one named, the calendars of other accounts, and the events of calendars of
  other accounts; \<open>DeleteCalendar\<close> leaves every account, the calendars other than the
  one named, and the events of the other calendars. Both always succeed and keep the
  schema satisfied.
\<close>

theorem cascade_delete:
  assumes "store_ok s"
  shows "(DeleteAccount s ident = Inr s' \<longrightarrow>
            accounts s' = [a \<leftarrow> accounts s. a_ID a \<noteq> ident]
          \<and> calendars s' = [c \<leftarrow> calendars s. c_AccountID c \<noteq> ident]
          \<and> events s' = [r \<leftarrow> events s. \<not> (\<exists>c \<in> set (calendars s).
                              c_ID c = r_calendar_id r \<and> c_AccountID c = ident)])
       \<and> (DeleteCalendar s ident = Inr s'' \<longrightarrow>
            accounts s'' = accounts s
          \<and> calendars s'' = [c \<leftarrow> calendars s. c_ID c \<noteq> ident]
          \<and> events s'' = [r \<leftarrow> events s. r_calendar_id r \<noteq> ident])
       \<and> (\<exists>t. DeleteAccount s ident = Inr t \<and> store_ok t)
       \<and> (\<exists>t. DeleteCalendar s ident = Inr t \<and> store_ok t)"
  using DeleteAccount_ok [OF assms, of ident] DeleteCalendar_ok [OF assms, of ident]
  unfolding DeleteAccount_eq [OF assms] DeleteCalendar_eq [OF assms]
  by auto

theorem cascade_delete_witness:
  "store_ok sampleStore
   \<and> DeleteAccount sampleStore ''acc-1'' = Inr emptyStore
   \<and> DeleteCalendar sampleStore ''hidden''
       = Inr (sampleStore\<lparr>calendars := [workCalendar],
                events := [lateRow, lateRow\<lparr> r_id := ''gone'', r_cancelled := True \<rparr>, standupRow]\<rparr>)"
proof -
  obtain t u where t: "DeleteAccount sampleStore ''acc-1'' = Inr t"
    and u: "DeleteCalendar sampleStore ''hidden'' = Inr u"
    using cascade_delete [OF sampleStore_ok, of "''acc-1''"]
      cascade_delete [OF sampleStore_ok, of "''hidden''"] by blast
  have "t = emptyStore"
    using cascade_delete [OF sampleStore_ok, of "''acc-1''" t] t
    by (simp add: emptyStore_def sampleStore_def sampleAccount_def workCalendar_def
        hiddenCalendar_def lateRow_def standupRow_def zeroAccount_def zeroCalendar_def)
  moreover have "u = sampleStore\<lparr>calendars := [workCalendar],
                events := [lateRow, lateRow\<lparr> r_id := ''gone'', r_cancelled := True \<rparr>, standupRow]\<rparr>"
    using cascade_delete [OF sampleStore_ok, of "''hidden''" _ u] u
    by (simp add: sampleStore_def sampleAccount_def workCalendar_def
        hiddenCalendar_def lateRow_def standupRow_def zeroAccount_def zeroCalendar_def)
  ultimately show ?thesis using t u sampleStore_ok by simp
qed

text \<open>
  C10. Every event that \<open>GetEvent\<close>, \<open>GetEventsByCalendar\<close>, \<open>GetEventsInRange\<close> or
  \<open>GetEventsForDate\<close> returns is the scan of a stored row; the scan of a row never has an
  empty status, and it has the status \<open>confirmed\<close> when the status column is NULL or
  the empty string.
\<close>

theorem read_status_never_empty:
  "(GetEvent s ident = Inr e \<longrightarrow> e \<in> scanEvent ` set (events s))
   \<and> set (GetEventsByCalendar s calendarID) \<subseteq> scanEvent ` set (events s)
   \<and> set (GetEventsInRange s start end) \<subseteq> scanEvent ` set (events s)
   \<and> set (GetEventsForDate s date) \<subseteq> scanEvent ` set (events s)
   \<and> (\<forall>ev \<in> scanEvent ` set (events s). e_Status ev \<noteq> [])
   \<and> (NullString (r_status r) = [] \<longrightarrow> e_Status (scanEvent r) = ''confirmed'')"
proof -
  have 1: "GetEvent s ident = Inr e \<longrightarrow> e \<in> scanEvent ` set (events s)"
  proof
    assume "GetEvent s ident = Inr e"
    then obtain r rs where f: "[r \<leftarrow> events s. r_id r = ident] = r # rs" and e: "e = scanEvent r"
      by (auto simp: GetEvent_def split: list.splits)
    have "r \<in> set [r \<leftarrow> events s. r_id r = ident]" unfolding f by simp
    then have "r \<in> set (events s)" by simp
    then show "e \<in> scanEvent ` set (events s)" using e by blast
  qed
  have 2: "set (GetEventsByCalendar s calendarID) \<subseteq> scanEvent ` set (events s)"
    by (auto simp: GetEventsByCalendar_def scanEvents_def)
  have 3: "set (GetEventsInRange s a b) \<subseteq> scanEvent ` set (events s)" for a b
    by (auto simp: GetEventsInRange_def scanEvents_def Let_def)
  have 4: "set (GetEventsForDate s date) \<subseteq> scanEvent ` set (events s)"
    unfolding GetEventsForDate_eq by (rule 3)
  have 5: "e_Status (scanEvent x) \<noteq> []" for x
    by (simp add: scanEvent_def Let_def StatusConfirmed_def)
  have 6: "NullString (r_status r) = [] \<longrightarrow> e_Status (scanEvent r) = ''confirmed''"
    by (simp add: scanEvent_def Let_def StatusConfirmed_def)
  show ?thesis using 1 2 3 4 5 6 by blast
qed

theorem read_status_witness:
  "NullString (r_status lateRow) = []
   \<and> GetEvent sampleStore ''late'' = Inr (scanEvent lateRow)
   \<and> scanEvent lateRow \<in> scanEvent ` set (events sampleStore)
   \<and> e_Status (scanEvent lateRow) = ''confirmed''"
proof -
  have n: "NullString (r_status lateRow) = []"
    by (simp add: NullString_def lateRow_def)
  have g: "GetEvent sampleStore ''late'' = Inr (scanEvent lateRow)"
    by (simp add: GetEvent_def sampleStore_def lateRow_def standupRow_def)
  show ?thesis
    using read_status_never_empty [of sampleStore "''late''" "scanEvent lateRow" _ _ _ _ lateRow] n g
    by simp
qed


lemma formatInt_small: "formatInt 7 = ''7''" "formatInt 8 = ''8''"
  by (simp_all add: formatInt_def digitsOf.simps)

lemma GetAllCalendars_empty: "GetAllCalendars s = [] \<longleftrightarrow> calendars s = []"
proof -
  have "length (GetAllCalendars s) = length (calendars s)"
    by (simp add: GetAllCalendars_def)
  then show ?thesis by (metis length_0_conv)
qed

lemma ensureDefaultCalendar_eq:
  "ensureDefaultCalendar s nano1 nano2 =
     (if calendars s = []
      then s\<lparr> accounts := upsert a_ID
                  (zeroAccount\<lparr> a_ID := ''acc-'' @ formatInt nano1, a_Name := ''Local'',
                     a_Type := AccountTypeLocal, a_Enabled := True \<rparr>) (accounts s),
               calendars := [zeroCalendar\<lparr> c_ID := ''cal-'' @ formatInt nano2,
                     c_AccountID := ''acc-'' @ formatInt nano1, c_Name := ''My Calendar'',
                     c_Color := ''#4285f4'', c_Visible := True \<rparr>] \<rparr>
      else s)"
proof (cases "calendars s = []")
  case True
  let ?a = "zeroAccount\<lparr> a_ID := ''acc-'' @ formatInt nano1, a_Name := ''Local'',
                     a_Type := AccountTypeLocal, a_Enabled := True \<rparr>"
  have k: "a_ID ?a \<in> set (map a_ID (upsert a_ID ?a (accounts s)))"
    unfolding upsert_key_set by simp
  show ?thesis
    using True k
    by (simp add: ensureDefaultCalendar_def GetAllCalendars_empty SaveAccount_def SaveCalendar_def
        Let_def upsert_new)
next
  case False
  then show ?thesis
    by (simp add: ensureDefaultCalendar_def GetAllCalendars_empty)
qed

text \<open>
  C9, as amended. The bootstrap changes the store if and only if the store holds no
  calendar. It then saves one local account, named from the first clock reading, and
  one default calendar of that account; the account is a new row whenever no stored
  account already carries the generated identifier. Whether accounts exist plays no part.
\<close>

theorem bootstrap_iff_no_calendars:
  "(ensureDefaultCalendar s nano1 nano2 \<noteq> s \<longleftrightarrow> calendars s = [])
   \<and> (calendars s = [] \<longrightarrow>
        accounts (ensureDefaultCalendar s nano1 nano2)
          = upsert a_ID (zeroAccount\<lparr> a_ID := ''acc-'' @ formatInt nano1, a_Name := ''Local'',
                           a_Type := AccountTypeLocal, a_Enabled := True \<rparr>) (accounts s)
        \<and> calendars (ensureDefaultCalendar s nano1 nano2)
          = [zeroCalendar\<lparr> c_ID := ''cal-'' @ formatInt nano2,
               c_AccountID := ''acc-'' @ formatInt nano1, c_Name := ''My Calendar'',
               c_Color := ''#4285f4'', c_Visible := True \<rparr>]
        \<and> events (ensureDefaultCalendar s nano1 nano2) = events s)
   \<and> (calendars s = [] \<and> ''acc-'' @ formatInt nano1 \<notin> set (map a_ID (accounts s)) \<longrightarrow>
        accounts (ensureDefaultCalendar s nano1 nano2)
          = accounts s @ [zeroAccount\<lparr> a_ID := ''acc-'' @ formatInt nano1, a_Name := ''Local'',
                             a_Type := AccountTypeLocal, a_Enabled := True \<rparr>])"
proof -
  have "s\<lparr> accounts := xs, calendars := [c] \<rparr> \<noteq> s" if "calendars s = []" for xs c
  proof
    assume "s\<lparr> accounts := xs, calendars := [c] \<rparr> = s"
    then have "calendars (s\<lparr> accounts := xs, calendars := [c] \<rparr>) = calendars s" by simp
    then show False using that by simp
  qed
  then show ?thesis
    unfolding ensureDefaultCalendar_eq by (auto simp: upsert_new)
qed

theorem bootstrap_witness:
  "calendars emptyStore = []
   \<and> ''acc-'' @ formatInt 7 \<notin> set (map a_ID (accounts emptyStore))
   \<and> accounts (ensureDefaultCalendar emptyStore 7 8)
        = [zeroAccount\<lparr> a_ID := ''acc-7'', a_Name := ''Local'',
             a_Type := AccountTypeLocal, a_Enabled := True \<rparr>]
   \<and> ensureDefaultCalendar sampleStore 7 8 = sampleStore"
proof -
  have e: "calendars emptyStore = []" "accounts emptyStore = []"
    by (simp_all add: emptyStore_def)
  have f: "''acc-'' @ formatInt 7 \<notin> set (map a_ID (accounts emptyStore))"
    by (simp add: e)
  have n: "calendars sampleStore \<noteq> []" by (simp add: sampleStore_def)
  have "accounts (ensureDefaultCalendar emptyStore 7 8)
          = accounts emptyStore @ [zeroAccount\<lparr> a_ID := ''acc-'' @ formatInt 7, a_Name := ''Local'',
                             a_Type := AccountTypeLocal, a_Enabled := True \<rparr>]"
    using bootstrap_iff_no_calendars [of emptyStore 7 8] e(1) f by blast
  moreover have "ensureDefaultCalendar sampleStore 7 8 = sampleStore"
    using bootstrap_iff_no_calendars [of sampleStore 7 8] n by blast
  ultimately show ?thesis using e f by (simp add: formatInt_small)
qed

theorem bootstrap_counterexample:
  "accounts orphanStore \<noteq> []
   \<and> accounts (ensureDefaultCalendar orphanStore 7 8)
        = [sampleAccount, zeroAccount\<lparr> a_ID := ''acc-7'', a_Name := ''Local'',
             a_Type := AccountTypeLocal, a_Enabled := True \<rparr>]"
  by (simp add: ensureDefaultCalendar_eq orphanStore_def upsert_def sampleAccount_def
      zeroAccount_def formatInt_small)









lemma saveEvents_calendars: "calendars (saveEvents calendarID evs s) = calendars s"
  by (induction evs arbitrary: s) (auto simp: SaveEvent_def split: sum.splits if_splits)







section \<open>Facts about \<open>AddDate\<close>\<close>

lemma div_succ_int:
  assumes "0 < k"
  shows "((z::int) + 1) div k = z div k + (if (z + 1) mod k = 0 then 1 else 0)"
proof -
  define q where "q = z div k"
  define r where "r = z mod k"
  have z: "z = k * q + r" and r: "0 \<le> r" "r < k"
    using assms by (simp_all add: q_def r_def)
  show ?thesis
  proof (cases "r + 1 < k")
    case True
    have "z + 1 = k * q + (r + 1)" using z by simp
    have "(k * q + (r + 1)) div k = q" "(k * q + (r + 1)) mod k = r + 1"
      using div_eq_int [of k "r + 1" q] mod_eq_int [of k "r + 1" q] True r assms by simp_all
    then have "(z + 1) div k = q" "(z + 1) mod k = r + 1"
      unfolding \<open>z + 1 = k * q + (r + 1)\<close> by simp_all
    then show ?thesis using r by (simp add: q_def)
  next
    case False
    then have "r + 1 = k" using r by simp
    then have zz: "z + 1 = k * (q + 1) + 0" using z by (simp add: algebra_simps)
    have "(k * (q + 1) + 0) div k = q + 1" "(k * (q + 1) + 0) mod k = 0"
      using div_eq_int [of k 0 "q + 1"] mod_eq_int [of k 0 "q + 1"] assms by simp_all
    then have "(z + 1) div k = q + 1" "(z + 1) mod k = 0"
      unfolding zz by simp_all
    then show ?thesis by (simp add: q_def)
  qed
qed

lemma daysSinceEpoch_next:
  "daysSinceEpoch (y + 1) = daysSinceEpoch y + 365 + (if isLeap y then 1 else 0)"
proof -
  define p4 where "p4 \<longleftrightarrow> y mod 4 = 0"
  define p100 where "p100 \<longleftrightarrow> y mod 100 = 0"
  define p400 where "p400 \<longleftrightarrow> y mod 400 = 0"
  define A :: int where "A = (if p4 then 1 else 0)"
  define B :: int where "B = (if p100 then 1 else 0)"
  define C :: int where "C = (if p400 then 1 else 0)"
  have a: "y div 4 = (y - 1) div 4 + A"
    using div_succ_int [of 4 "y - 1"] by (simp add: A_def p4_def)
  have b: "y div 100 = (y - 1) div 100 + B"
    using div_succ_int [of 100 "y - 1"] by (simp add: B_def p100_def)
  have c: "y div 400 = (y - 1) div 400 + C"
    using div_succ_int [of 400 "y - 1"] by (simp add: C_def p400_def)
  have i1: "p400 \<longrightarrow> p100"
  proof
    assume p400
    then have "y mod 400 mod 100 = 0" by (simp add: p400_def)
    moreover have "y mod 400 mod 100 = y mod 100" by (rule mod_mod_cancel) simp
    ultimately show p100 by (simp add: p100_def)
  qed
  have i2: "p100 \<longrightarrow> p4"
  proof
    assume p100
    then have "y mod 100 mod 4 = 0" by (simp add: p100_def)
    moreover have "y mod 100 mod 4 = y mod 4" by (rule mod_mod_cancel) simp
    ultimately show p4 by (simp add: p4_def)
  qed
  have leap: "isLeap y \<longleftrightarrow> p4 \<and> (\<not> p100 \<or> p400)"
    unfolding isLeap_def p4_def p100_def p400_def ..
  have l: "A - B + C = (if isLeap y then 1 else 0)"
    unfolding leap A_def B_def C_def using i1 i2
    by (cases p4; cases p100; cases p400) simp_all
  have "daysSinceEpoch (y + 1) = 365 * y + y div 4 - y div 100 + y div 400"
    by (simp add: daysSinceEpoch_def)
  also have "\<dots> = daysSinceEpoch y + 365 + (A - B + C)"
    unfolding a b c by (simp add: daysSinceEpoch_def Let_def)
  finally show ?thesis unfolding l by simp
qed

lemma daysSinceEpoch_prev:
  "daysSinceEpoch (y - 1) = daysSinceEpoch y - 365 - (if isLeap (y - 1) then 1 else 0)"
  using daysSinceEpoch_next [of "y - 1"] by simp

lemma Clock_sum:
  assumes "Clock t = (h, mi, s)"
  shows "h * 3600 + mi * 60 + s = t mod 86400"
proof -
  define x where "x = t mod 86400"
  have h: "h = x div 3600" and mi: "mi = (x mod 3600) div 60" and s: "s = x mod 60"
    using assms by (simp_all add: Clock_def Let_def x_def)
  have "x mod 60 = (x mod 3600) mod 60"
    using mod_mod_cancel [of 60 3600 x] by simp
  then have "mi * 60 + s = x mod 3600"
    unfolding mi s by simp
  moreover have "x = x div 3600 * 3600 + x mod 3600" by simp
  ultimately show ?thesis unfolding h x_def [symmetric] by linarith
qed

text \<open>The day number of a civil date whose month is in range.\<close>

lemma absDate_Date:
  assumes "absDate t = (y, m, d)" "Clock t = (h, mi, s)"
  shows "t = Date y m d h mi s" "1 \<le> m" "m \<le> 12"
proof -
  note a = absDate_sound [OF assms(1)]
  show "1 \<le> m" "m \<le> 12" using a by simp_all
  have "Date y m d h mi s = (t div 86400) * 86400 + (h * 3600 + mi * 60 + s)"
    unfolding Date_in_range [OF a(1) a(2)] a(5) by simp
  also have "\<dots> = (t div 86400) * 86400 + t mod 86400"
    unfolding Clock_sum [OF assms(2)] ..
  finally show "t = Date y m d h mi s" by simp
qed

lemma month_back:
  assumes "1 \<le> m" "m \<le> 12"
  shows "Date y m d h mi s - Date y (m - 1) d h mi s \<in> {28 * 86400, 29 * 86400, 30 * 86400, 31 * 86400}"
proof -
  have m: "m = 1 \<or> m = 2 \<or> m = 3 \<or> m = 4 \<or> m = 5 \<or> m = 6 \<or> m = 7 \<or> m = 8 \<or> m = 9
    \<or> m = 10 \<or> m = 11 \<or> m = 12" using assms by arith
  show ?thesis
    using m daysSinceEpoch_prev [of y]
    by (elim disjE) (simp_all add: Date_def Let_def daysBefore_def)
qed

lemma month_forward:
  assumes "1 \<le> m" "m \<le> 12"
  shows "Date y (m + 3) d h mi s - Date y m d h mi s \<in> {89 * 86400, 90 * 86400, 91 * 86400, 92 * 86400}"
proof -
  have m: "m = 1 \<or> m = 2 \<or> m = 3 \<or> m = 4 \<or> m = 5 \<or> m = 6 \<or> m = 7 \<or> m = 8 \<or> m = 9
    \<or> m = 10 \<or> m = 11 \<or> m = 12" using assms by arith
  show ?thesis
    using m daysSinceEpoch_next [of y]
    by (elim disjE) (simp_all add: Date_def Let_def daysBefore_def)
qed

lemma AddDate_back: "t - AddDate t 0 (- 1) 0 \<in> {28 * 86400, 29 * 86400, 30 * 86400, 31 * 86400}"
proof -
  obtain y m d where a: "absDate t = (y, m, d)" by (cases "absDate t") auto
  obtain h mi s where c: "Clock t = (h, mi, s)" by (cases "Clock t") auto
  note f = absDate_Date [OF a c]
  have "AddDate t 0 (- 1) 0 = Date y (m - 1) d h mi s"
    by (simp add: AddDate_def a c)
  then show ?thesis using month_back [OF f(2) f(3), of y d h mi s] f(1) by simp
qed

lemma AddDate_forward: "AddDate t 0 3 0 - t \<in> {89 * 86400, 90 * 86400, 91 * 86400, 92 * 86400}"
proof -
  obtain y m d where a: "absDate t = (y, m, d)" by (cases "absDate t") auto
  obtain h mi s where c: "Clock t = (h, mi, s)" by (cases "Clock t") auto
  note f = absDate_Date [OF a c]
  have "AddDate t 0 3 0 = Date y (m + 3) d h mi s"
    by (simp add: AddDate_def a c)
  then show ?thesis using month_forward [OF f(2) f(3), of y d h mi s] f(1) by simp
qed


section \<open>Facts about the sync paths\<close>

lemma fetchGoogleEvents_sent:
  "sent (fetchGoogleEvents E w account cal)
     = sent w @ [EventsGET (a_AccessToken account) (c_ID cal)
                   (AddDate (Now E (ticks w)) 0 (- 1) 0) (AddDate (Now E (Suc (ticks w))) 0 3 0)]"
  by (simp add: fetchGoogleEvents_def tick_def send_def Let_def split: response.splits)

lemma syncCalendars_sent:
  "\<exists>reqs. sent (syncCalendars E account items w) = sent w @ reqs
     \<and> (\<forall>r \<in> set reqs. \<exists>tok cid k. r = EventsGET tok cid
            (AddDate (Now E k) 0 (- 1) 0) (AddDate (Now E (Suc k)) 0 3 0))"
proof (induction items arbitrary: w)
  case Nil
  then show ?case by simp
next
  case (Cons item items)
  define cal where "cal = (let cal = zeroCalendar\<lparr> c_ID := gc_ID item, c_AccountID := a_ID account,
                  c_Name := gc_Summary item, c_Description := gc_Description item,
                  c_Color := gc_BackgroundColor item, c_Visible := True \<rparr>
      in (if c_Color cal = [] then cal\<lparr> c_Color := ''#4285f4'' \<rparr> else cal))"
  show ?case
  proof (cases "SaveCalendar (store w) cal")
    case (Inl err)
    then have "syncCalendars E account (item # items) w = syncCalendars E account items w"
      by (simp add: cal_def Let_def)
    then show ?thesis using Cons.IH [of w] by simp
  next
    case (Inr s)
    let ?w = "fetchGoogleEvents E (w\<lparr> store := s \<rparr>) account cal"
    have step: "syncCalendars E account (item # items) w = syncCalendars E account items ?w"
      using Inr by (simp add: cal_def Let_def)
    obtain reqs where r: "sent (syncCalendars E account items ?w) = sent ?w @ reqs"
      "\<forall>r \<in> set reqs. \<exists>tok cid k. r = EventsGET tok cid
            (AddDate (Now E k) 0 (- 1) 0) (AddDate (Now E (Suc k)) 0 3 0)"
      using Cons.IH [of ?w] by blast
    let ?q = "EventsGET (a_AccessToken account) (c_ID cal)
                   (AddDate (Now E (ticks w)) 0 (- 1) 0) (AddDate (Now E (Suc (ticks w))) 0 3 0)"
    have "sent (syncCalendars E account (item # items) w) = sent w @ (?q # reqs)"
      unfolding step r(1) fetchGoogleEvents_sent by simp
    moreover have "\<forall>r \<in> set (?q # reqs). \<exists>tok cid k. r = EventsGET tok cid
            (AddDate (Now E k) 0 (- 1) 0) (AddDate (Now E (Suc k)) 0 3 0)"
      using r(2) by auto
    ultimately show ?thesis by blast
  qed
qed

lemma syncDAVCalendars_sent:
  "\<exists>reqs. sent (syncDAVCalendars E account dcs w) = sent w @ reqs
     \<and> (\<forall>r \<in> set reqs. \<exists>cid k. r = CalDAVQuery cid
            (AddDate (Now E k) 0 (- 1) 0) (AddDate (Now E (Suc k)) 0 3 0))"
proof (induction dcs arbitrary: w)
  case Nil
  then show ?case by simp
next
  case (Cons dc dcs)
  define cal where "cal = zeroCalendar\<lparr> c_ID := d_Path dc, c_AccountID := a_ID account,
                  c_Name := d_Name dc, c_Description := d_Description dc,
                  c_Color := ''#4285f4'', c_Visible := True, c_ReadOnly := False \<rparr>"
  show ?case
  proof (cases "SaveCalendar (store w) cal")
    case (Inl err)
    then have "syncDAVCalendars E account (dc # dcs) w = syncDAVCalendars E account dcs w"
      by (simp add: cal_def Let_def)
    then show ?thesis using Cons.IH [of w] by simp
  next
    case (Inr s)
    let ?q = "CalDAVQuery (c_ID cal)
                   (AddDate (Now E (ticks w)) 0 (- 1) 0) (AddDate (Now E (Suc (ticks w))) 0 3 0)"
    obtain w' where step: "syncDAVCalendars E account (dc # dcs) w = syncDAVCalendars E account dcs w'"
      and w': "sent w' = sent w @ [?q]"
      using Inr
      by (cases "davObjects E (c_ID cal)")
        (auto simp: cal_def Let_def tick_def send_def)
    obtain reqs where r: "sent (syncDAVCalendars E account dcs w') = sent w' @ reqs"
      "\<forall>r \<in> set reqs. \<exists>cid k. r = CalDAVQuery cid
            (AddDate (Now E k) 0 (- 1) 0) (AddDate (Now E (Suc k)) 0 3 0)"
      using Cons.IH [of w'] by blast
    have "sent (syncDAVCalendars E account (dc # dcs) w) = sent w @ (?q # reqs)"
      unfolding step r(1) w' by simp
    moreover have "\<forall>r \<in> set (?q # reqs). \<exists>cid k. r = CalDAVQuery cid
            (AddDate (Now E k) 0 (- 1) 0) (AddDate (Now E (Suc k)) 0 3 0)"
      using r(2) by auto
    ultimately show ?thesis by blast
  qed
qed

lemma AddDate_2024_03_15:
  "AddDate (Date 2024 3 15 12 0 0) 0 (- 1) 0 = Date 2024 2 15 12 0 0"
  "AddDate (Date 2024 3 15 12 0 0) 0 3 0 = Date 2024 6 15 12 0 0"
  "Date 2024 3 15 12 0 0 - Date 2024 2 15 12 0 0 = 29 * 86400"
  "Date 2024 6 15 12 0 0 - Date 2024 3 15 12 0 0 = 92 * 86400"
  by (simp_all add: AddDate_def absDate_def absYear_def absMonthDay_def Clock_def Date_def
      daysSinceEpoch_def daysBefore_def isLeap_def Let_def)

text \<open>
  The CalDAV loop of \<open>syncCalDAVAccount\<close> computes its window by the same two calls.
\<close>

lemma syncDAVCalendars_window:
  "\<exists>reqs. sent (syncDAVCalendars E account dcs w) = sent w @ reqs
     \<and> (\<forall>r \<in> set reqs. \<exists>cid k. r = CalDAVQuery cid
            (AddDate (Now E k) 0 (- 1) 0) (AddDate (Now E (Suc k)) 0 3 0))"
  by (rule syncDAVCalendars_sent)

text \<open>
  C8, as amended. Every per-calendar event fetch of a Google account sync requests the
  window from \<open>AddDate(0, -1, 0)\<close> of one clock reading to \<open>AddDate(0, 3, 0)\<close> of the
  next: one calendar month back and three calendar months ahead. The start lies 28, 29,
  30 or 31 days before its reading and the end 89, 90, 91 or 92 days after its reading, at
  the same time of day.
\<close>

theorem fetch_window_in_months:
  "(\<exists>reqs. sent (syncCalendars E account items w) = sent w @ reqs
      \<and> (\<forall>r \<in> set reqs. \<exists>tok cid k. r = EventsGET tok cid
             (AddDate (Now E k) 0 (- 1) 0) (AddDate (Now E (Suc k)) 0 3 0)))
   \<and> sent (fetchGoogleEvents E w account cal)
       = sent w @ [EventsGET (a_AccessToken account) (c_ID cal)
                     (AddDate (Now E (ticks w)) 0 (- 1) 0) (AddDate (Now E (Suc (ticks w))) 0 3 0)]
   \<and> t - AddDate t 0 (- 1) 0 \<in> {28 * 86400, 29 * 86400, 30 * 86400, 31 * 86400}
   \<and> AddDate t 0 3 0 - t \<in> {89 * 86400, 90 * 86400, 91 * 86400, 92 * 86400}"
  using syncCalendars_sent [of E account items w]
    fetchGoogleEvents_sent [of E w account cal] AddDate_back [of t] AddDate_forward [of t]
  by blast

theorem fetch_window_witness:
  "sent (fetchGoogleEvents quietEnv sampleWorld googleAccount workCalendar)
     = [EventsGET ''old-token'' ''work'' (Date 2024 2 15 12 0 0) (Date 2024 6 15 12 0 0)]
   \<and> Date 2024 3 15 12 0 0 - AddDate (Date 2024 3 15 12 0 0) 0 (- 1) 0
       \<in> {28 * 86400, 29 * 86400, 30 * 86400, 31 * 86400}
   \<and> (\<exists>reqs. sent (syncCalendars quietEnv googleAccount [workGcal] sampleWorld)
                = sent sampleWorld @ reqs
          \<and> (\<forall>r \<in> set reqs. \<exists>tok cid k. r = EventsGET tok cid
                (AddDate (Now quietEnv k) 0 (- 1) 0) (AddDate (Now quietEnv (Suc k)) 0 3 0)))"
  using fetch_window_in_months [of quietEnv googleAccount "[workGcal]" sampleWorld
      workCalendar "Date 2024 3 15 12 0 0"]
  by (simp add: quietEnv_def sampleWorld_def googleAccount_def workCalendar_def
      zeroAccount_def zeroCalendar_def AddDate_2024_03_15)

theorem fetch_window_counterexample:
  "Now quietEnv 0 = Date 2024 3 15 12 0 0 \<and> Now quietEnv 1 = Date 2024 3 15 12 0 0
   \<and> sent (fetchGoogleEvents quietEnv sampleWorld googleAccount workCalendar)
       = [EventsGET ''old-token'' ''work'' (Date 2024 2 15 12 0 0) (Date 2024 6 15 12 0 0)]
   \<and> Date 2024 3 15 12 0 0 - Date 2024 2 15 12 0 0 = 29 * 86400
   \<and> Date 2024 6 15 12 0 0 - Date 2024 3 15 12 0 0 = 92 * 86400"
  by (simp add: fetchGoogleEvents_sent quietEnv_def sampleWorld_def googleAccount_def
      workCalendar_def zeroAccount_def zeroCalendar_def AddDate_2024_03_15)


section \<open>Facts about token refresh\<close>

lemma Seconds_in_range:
  "- (2 ^ 63) \<le> n * 1000000000 \<Longrightarrow> n * 1000000000 < 2 ^ 63 \<Longrightarrow> Seconds n = n"
proof -
  assume a: "- (2 ^ 63) \<le> n * 1000000000" and b: "n * 1000000000 < 2 ^ 63"
  have "0 \<le> n * 1000000000 + 2 ^ 63" "n * 1000000000 + 2 ^ 63 < (2 ^ 64 :: int)"
    using a b by simp_all
  then have "(n * 1000000000 + 2 ^ 63) mod 2 ^ 64 = n * 1000000000 + 2 ^ 63"
    by (rule mod_pos_pos_trivial)
  then have "wrap64 (n * 1000000000) = n * 1000000000"
    by (simp add: wrap64_def)
  then show ?thesis by (simp add: Seconds_def)
qed

lemma refreshGoogleToken_none:
  "a_RefreshToken account = [] \<Longrightarrow>
   refreshGoogleToken E w account = (Some NoRefreshToken, w, account)"
  by (simp add: refreshGoogleToken_def)

lemma refreshGoogleToken_sent:
  "a_RefreshToken account \<noteq> [] \<Longrightarrow>
   sent (fst (snd (refreshGoogleToken E w account))) = sent w @ [RefreshPOST (a_RefreshToken account)]"
  by (simp add: refreshGoogleToken_def send_def tick_def SaveAccount_def Let_def
      split: refresh_response.splits)

lemma refreshGoogleToken_failure:
  "fst (refreshGoogleToken E w account) \<noteq> None \<Longrightarrow>
   store (fst (snd (refreshGoogleToken E w account))) = store w
   \<and> snd (snd (refreshGoogleToken E w account)) = account"
  by (simp add: refreshGoogleToken_def send_def tick_def SaveAccount_def Let_def
      split: refresh_response.splits if_splits)

lemma refreshGoogleToken_success:
  assumes "a_RefreshToken account \<noteq> []"
    and "refreshResponse E (a_RefreshToken account) = RefreshJSON token life [] desc"
  shows "refreshGoogleToken E w account =
     (None,
      w\<lparr> store := (store w)\<lparr>accounts := upsert a_ID
                       (account\<lparr> a_AccessToken := token,
                          a_TokenExpiry := Now E (ticks w) + Seconds life \<rparr>) (accounts (store w))\<rparr>,
         sent := sent w @ [RefreshPOST (a_RefreshToken account)], ticks := Suc (ticks w) \<rparr>,
      account\<lparr> a_AccessToken := token, a_TokenExpiry := Now E (ticks w) + Seconds life \<rparr>)"
  using assms
  by (simp add: refreshGoogleToken_def send_def tick_def SaveAccount_def Let_def)

lemma sync_unfold:
  "syncGoogleCalendarAPI E w account =
     (if Now E (ticks w) > a_TokenExpiry account
      then (case refreshGoogleToken E (w\<lparr> ticks := Suc (ticks w) \<rparr>) account of
              (err, w', account') \<Rightarrow>
                if err \<noteq> None then (w', account') else afterAuth E w' account')
      else afterAuth E (w\<lparr> ticks := Suc (ticks w) \<rparr>) account)"
  by (simp add: syncGoogleCalendarAPI_def afterAuth_def tick_def Let_def split: prod.splits)

lemma afterAuth_sent:
  "\<exists>reqs. sent (fst (afterAuth E w account)) = sent w @ CalendarListGET (a_AccessToken account) # reqs
     \<and> (\<forall>r \<in> set reqs. \<not> isRefresh r)"
proof (cases "calendarListResponse E (a_AccessToken account)")
  case (Items items)
  let ?w = "send (CalendarListGET (a_AccessToken account)) w"
  obtain reqs where r: "sent (syncCalendars E account items ?w) = sent ?w @ reqs"
    "\<forall>r \<in> set reqs. \<exists>tok cid k. r = EventsGET tok cid
            (AddDate (Now E k) 0 (- 1) 0) (AddDate (Now E (Suc k)) 0 3 0)"
    using syncCalendars_sent [of E account items ?w] by blast
  have "sent (fst (afterAuth E w account)) = sent (syncCalendars E account items ?w)"
    using Items by (simp add: afterAuth_def tick_def SaveAccount_def Let_def)
  then have "sent (fst (afterAuth E w account)) = sent w @ CalendarListGET (a_AccessToken account) # reqs"
    using r(1) by (simp add: send_def)
  moreover have "\<forall>r \<in> set reqs. \<not> isRefresh r"
    using r(2) by (auto simp: isRefresh_def)
  ultimately show ?thesis by blast
qed (simp_all add: afterAuth_def send_def)

text \<open>
  C6, as amended. A Google account sync whose clock reading is past the stored expiry and
  whose account holds a refresh token sends exactly one refresh-token POST, first, before
  any calendar-list request; with no refresh token it sends nothing at all and changes
  nothing; with a token that is not yet expired it sends the calendar-list request first
  and no refresh. A refresh whose response carries no error stores the new access token
  and the expiry \<open>now + Seconds lifetime\<close> in the account and saves the account, where
  \<open>Seconds lifetime\<close> is the lifetime itself whenever its nanosecond count fits in 64
  bits. A refresh that fails leaves the store and the account as they were and no
  calendar-list request follows.
\<close>

theorem token_refresh_gating:
  "(\<not> Now E (ticks w) > a_TokenExpiry account \<longrightarrow>
      (\<exists>reqs. sent (fst (syncGoogleCalendarAPI E w account))
                = sent w @ CalendarListGET (a_AccessToken account) # reqs
         \<and> (\<forall>r \<in> set reqs. \<not> isRefresh r)))
   \<and> (Now E (ticks w) > a_TokenExpiry account \<and> a_RefreshToken account \<noteq> [] \<longrightarrow>
      (\<exists>reqs. sent (fst (syncGoogleCalendarAPI E w account))
                = sent w @ RefreshPOST (a_RefreshToken account) # reqs
         \<and> (\<forall>r \<in> set reqs. \<not> isRefresh r)))
   \<and> (Now E (ticks w) > a_TokenExpiry account \<and> a_RefreshToken account = [] \<longrightarrow>
      syncGoogleCalendarAPI E w account = (w\<lparr> ticks := Suc (ticks w) \<rparr>, account))
   \<and> (a_RefreshToken account \<noteq> []
        \<and> refreshResponse E (a_RefreshToken account) = RefreshJSON token life [] desc \<longrightarrow>
      refreshGoogleToken E w account =
        (None,
         w\<lparr> store := (store w)\<lparr>accounts := upsert a_ID
                          (account\<lparr> a_AccessToken := token,
                             a_TokenExpiry := Now E (ticks w) + Seconds life \<rparr>)
                          (accounts (store w))\<rparr>,
            sent := sent w @ [RefreshPOST (a_RefreshToken account)], ticks := Suc (ticks w) \<rparr>,
         account\<lparr> a_AccessToken := token, a_TokenExpiry := Now E (ticks w) + Seconds life \<rparr>))
   \<and> (- (2 ^ 63) \<le> life * 1000000000 \<and> life * 1000000000 < 2 ^ 63 \<longrightarrow> Seconds life = life)
   \<and> (Now E (ticks w) > a_TokenExpiry account
        \<and> fst (refreshGoogleToken E (w\<lparr> ticks := Suc (ticks w) \<rparr>) account) \<noteq> None \<longrightarrow>
      store (fst (syncGoogleCalendarAPI E w account)) = store w
      \<and> snd (syncGoogleCalendarAPI E w account) = account
      \<and> (\<forall>r \<in> set (sent (fst (syncGoogleCalendarAPI E w account))).
            r \<in> set (sent w) \<or> isRefresh r))"
proof -
  let ?w1 = "w\<lparr> ticks := Suc (ticks w) \<rparr>"
  have A: "\<not> Now E (ticks w) > a_TokenExpiry account \<longrightarrow>
      (\<exists>reqs. sent (fst (syncGoogleCalendarAPI E w account))
                = sent w @ CalendarListGET (a_AccessToken account) # reqs
         \<and> (\<forall>r \<in> set reqs. \<not> isRefresh r))"
    using afterAuth_sent [of E ?w1 account] by (simp add: sync_unfold)
  have B: "Now E (ticks w) > a_TokenExpiry account \<and> a_RefreshToken account \<noteq> [] \<longrightarrow>
      (\<exists>reqs. sent (fst (syncGoogleCalendarAPI E w account))
                = sent w @ RefreshPOST (a_RefreshToken account) # reqs
         \<and> (\<forall>r \<in> set reqs. \<not> isRefresh r))"
  proof
    assume h: "Now E (ticks w) > a_TokenExpiry account \<and> a_RefreshToken account \<noteq> []"
    obtain err w' account' where r: "refreshGoogleToken E ?w1 account = (err, w', account')"
      by (cases "refreshGoogleToken E ?w1 account") auto
    have s: "sent w' = sent w @ [RefreshPOST (a_RefreshToken account)]"
      using refreshGoogleToken_sent [of account E ?w1] h r by simp
    show "\<exists>reqs. sent (fst (syncGoogleCalendarAPI E w account))
                = sent w @ RefreshPOST (a_RefreshToken account) # reqs
         \<and> (\<forall>r \<in> set reqs. \<not> isRefresh r)"
    proof (cases "err = None")
      case True
      obtain reqs where q: "sent (fst (afterAuth E w' account'))
            = sent w' @ CalendarListGET (a_AccessToken account') # reqs"
        "\<forall>r \<in> set reqs. \<not> isRefresh r"
        using afterAuth_sent [of E w' account'] by blast
      have "sent (fst (syncGoogleCalendarAPI E w account))
            = sent w @ RefreshPOST (a_RefreshToken account)
                # (CalendarListGET (a_AccessToken account') # reqs)"
        using h r True q(1) s by (simp add: sync_unfold)
      moreover have "\<forall>r \<in> set (CalendarListGET (a_AccessToken account') # reqs). \<not> isRefresh r"
        using q(2) by (simp add: isRefresh_def)
      ultimately show ?thesis by blast
    next
      case False
      then have "sent (fst (syncGoogleCalendarAPI E w account))
            = sent w @ RefreshPOST (a_RefreshToken account) # []"
        using h r s by (simp add: sync_unfold)
      then show ?thesis by force
    qed
  qed
  have C: "Now E (ticks w) > a_TokenExpiry account \<and> a_RefreshToken account = [] \<longrightarrow>
      syncGoogleCalendarAPI E w account = (?w1, account)"
    by (simp add: sync_unfold refreshGoogleToken_none)
  have D: "a_RefreshToken account \<noteq> []
        \<and> refreshResponse E (a_RefreshToken account) = RefreshJSON token life [] desc \<longrightarrow>
      refreshGoogleToken E w account =
        (None,
         w\<lparr> store := (store w)\<lparr>accounts := upsert a_ID
                          (account\<lparr> a_AccessToken := token,
                             a_TokenExpiry := Now E (ticks w) + Seconds life \<rparr>)
                          (accounts (store w))\<rparr>,
            sent := sent w @ [RefreshPOST (a_RefreshToken account)], ticks := Suc (ticks w) \<rparr>,
         account\<lparr> a_AccessToken := token, a_TokenExpiry := Now E (ticks w) + Seconds life \<rparr>)"
    using refreshGoogleToken_success [of account E token life desc w] by blast
  have F: "- (2 ^ 63) \<le> life * 1000000000 \<and> life * 1000000000 < 2 ^ 63 \<longrightarrow> Seconds life = life"
    using Seconds_in_range [of life] by blast
  have G: "Now E (ticks w) > a_TokenExpiry account
        \<and> fst (refreshGoogleToken E ?w1 account) \<noteq> None \<longrightarrow>
      store (fst (syncGoogleCalendarAPI E w account)) = store w
      \<and> snd (syncGoogleCalendarAPI E w account) = account
      \<and> (\<forall>r \<in> set (sent (fst (syncGoogleCalendarAPI E w account))).
            r \<in> set (sent w) \<or> isRefresh r)"
  proof
    assume h: "Now E (ticks w) > a_TokenExpiry account
        \<and> fst (refreshGoogleToken E ?w1 account) \<noteq> None"
    obtain err w' account' where r: "refreshGoogleToken E ?w1 account = (err, w', account')"
      by (cases "refreshGoogleToken E ?w1 account") auto
    have e: "err \<noteq> None" using h r by simp
    have res: "syncGoogleCalendarAPI E w account = (w', account')"
      using h r e by (simp add: sync_unfold)
    have f: "store w' = store w" "account' = account"
      using refreshGoogleToken_failure [of E ?w1 account] h r by simp_all
    have "sent w' = sent w \<or> sent w' = sent w @ [RefreshPOST (a_RefreshToken account)]"
    proof (cases "a_RefreshToken account = []")
      case True
      then show ?thesis using refreshGoogleToken_none [of account E ?w1] r by simp
    next
      case False
      then show ?thesis using refreshGoogleToken_sent [of account E ?w1] r by simp
    qed
    then have "\<forall>r \<in> set (sent w'). r \<in> set (sent w) \<or> isRefresh r"
      by (auto simp: isRefresh_def)
    then show "store (fst (syncGoogleCalendarAPI E w account)) = store w
      \<and> snd (syncGoogleCalendarAPI E w account) = account
      \<and> (\<forall>r \<in> set (sent (fst (syncGoogleCalendarAPI E w account))).
            r \<in> set (sent w) \<or> isRefresh r)"
      unfolding res using f by simp
  qed
  show ?thesis using A B C D F G by blast
qed

lemma sample_clock:
  "Now quietEnv n = Date 2024 3 15 12 0 0" "Now refreshingEnv n = Date 2024 3 15 12 0 0"
  "Now longLivedEnv n = Date 2024 3 15 12 0 0"
  "a_TokenExpiry googleAccount = Date 2024 3 15 11 0 0"
  "a_TokenExpiry staleAccount = Date 2024 3 15 11 0 0"
  "Date 2024 3 15 11 0 0 < Date 2024 3 15 12 0 0"
  by (simp_all add: quietEnv_def refreshingEnv_def longLivedEnv_def googleAccount_def
      staleAccount_def Date_def)

theorem token_refresh_witness:
  "Now refreshingEnv (ticks sampleWorld) > a_TokenExpiry googleAccount
   \<and> a_RefreshToken googleAccount \<noteq> []
   \<and> refreshResponse refreshingEnv (a_RefreshToken googleAccount) = RefreshJSON ''new-token'' 3599 [] []
   \<and> (\<exists>reqs. sent (fst (syncGoogleCalendarAPI refreshingEnv sampleWorld googleAccount))
                = RefreshPOST ''refresh-1'' # reqs
         \<and> (\<forall>r \<in> set reqs. \<not> isRefresh r))
   \<and> snd (snd (refreshGoogleToken refreshingEnv sampleWorld googleAccount))
       = googleAccount\<lparr> a_AccessToken := ''new-token'',
                         a_TokenExpiry := Date 2024 3 15 12 0 0 + 3599 \<rparr>"
proof -
  have h: "Now refreshingEnv (ticks sampleWorld) > a_TokenExpiry googleAccount"
    "a_RefreshToken googleAccount \<noteq> []" "a_RefreshToken googleAccount = ''refresh-1''"
    "refreshResponse refreshingEnv (a_RefreshToken googleAccount) = RefreshJSON ''new-token'' 3599 [] []"
    "sent sampleWorld = []"
    "- (2 ^ 63) \<le> (3599::int) * 1000000000 \<and> (3599::int) * 1000000000 < 2 ^ 63"
    by (simp_all add: sample_clock, simp_all add: googleAccount_def refreshingEnv_def
        quietEnv_def sampleWorld_def)
  note T = token_refresh_gating [where E = refreshingEnv and w = sampleWorld
      and account = googleAccount and token = "''new-token''" and life = 3599 and desc = "[]"]
  from T h(1,2) obtain reqs where
    "sent (fst (syncGoogleCalendarAPI refreshingEnv sampleWorld googleAccount))
       = sent sampleWorld @ RefreshPOST (a_RefreshToken googleAccount) # reqs"
    "\<forall>r \<in> set reqs. \<not> isRefresh r"
    by blast
  then have 1: "\<exists>reqs. sent (fst (syncGoogleCalendarAPI refreshingEnv sampleWorld googleAccount))
                = RefreshPOST ''refresh-1'' # reqs \<and> (\<forall>r \<in> set reqs. \<not> isRefresh r)"
    unfolding h(3) h(5) by auto
  from T h(6) have s: "Seconds 3599 = 3599" by blast
  from T h(2,4) have "snd (snd (refreshGoogleToken refreshingEnv sampleWorld googleAccount))
       = googleAccount\<lparr> a_AccessToken := ''new-token'',
                         a_TokenExpiry := Now refreshingEnv (ticks sampleWorld) + Seconds 3599 \<rparr>"
    by simp
  then have 2: "snd (snd (refreshGoogleToken refreshingEnv sampleWorld googleAccount))
       = googleAccount\<lparr> a_AccessToken := ''new-token'',
                         a_TokenExpiry := Date 2024 3 15 12 0 0 + 3599 \<rparr>"
    unfolding s sample_clock .
  show ?thesis using h(1,2,4) 1 2 by blast
qed

theorem token_refresh_counterexample:
  "Now quietEnv (ticks sampleWorld) > a_TokenExpiry staleAccount
   \<and> sent (fst (syncGoogleCalendarAPI quietEnv sampleWorld staleAccount)) = []
   \<and> a_TokenExpiry (snd (snd (refreshGoogleToken longLivedEnv sampleWorld googleAccount)))
       = Date 2024 3 15 12 0 0 - 8446744074"
proof -
  have 1: "Now quietEnv (ticks sampleWorld) > a_TokenExpiry staleAccount"
    by (simp add: sample_clock)
  have r: "a_RefreshToken staleAccount = []" by (simp add: staleAccount_def)
  have 2: "sent (fst (syncGoogleCalendarAPI quietEnv sampleWorld staleAccount)) = []"
    using 1 r by (simp add: sync_unfold refreshGoogleToken_none sampleWorld_def)
  have "Seconds 10000000000 = - 8446744074"
    by (simp add: Seconds_def wrap64_def)
  moreover have "a_RefreshToken googleAccount \<noteq> []"
    "refreshResponse longLivedEnv (a_RefreshToken googleAccount)
       = RefreshJSON ''new-token'' 10000000000 [] []"
    by (simp_all add: googleAccount_def longLivedEnv_def quietEnv_def)
  ultimately have 3: "a_TokenExpiry (snd (snd (refreshGoogleToken longLivedEnv sampleWorld googleAccount)))
       = Date 2024 3 15 12 0 0 - 8446744074"
    by (simp add: refreshGoogleToken_success sample_clock)
  show ?thesis using 1 2 3 by blast
qed

end
